theory Spec2Isabelle
  imports Main "HOL-Library.Sublist"
begin

section \<open>Data model of the review server\<close>

text \<open>
  The server part of the application keeps one object \<open>db\<close> in memory and rewrites the
  file \<open>data.json\<close> after every mutation. Identifiers and counters are JavaScript
  numbers holding integers and are modelled as \<open>int\<close>; what \<open>++\<close> does to such a
  number is \<open>increment\<close> below. A time stamp is stored by the
  code as the text \<open>new Date().toISOString()\<close> and read back with \<open>new Date(text)\<close>;
  the two are inverse to each other, and the model keeps the number of milliseconds
  the text denotes. A field that may be \<open>null\<close> is an \<open>option\<close>.
\<close>

type_synonym timestamp = int

record plan_section =
  s_id :: int
  s_title :: string
  s_level :: int
  s_content :: string
  s_updated_at :: "timestamp option"

record reply =
  r_id :: int
  r_text :: string
  r_author :: string
  r_created_at :: timestamp

record discussion =
  d_id :: int
  d_section_id :: "int option"
  d_type :: string
  d_text :: string
  d_author :: string
  d_resolved :: bool
  d_resolved_by :: "string option"
  d_resolved_at :: "timestamp option"
  d_created_at :: timestamp
  d_replies :: "reply list"

record notification =
  n_id :: int
  n_user :: string
  n_type :: string
  n_message :: string
  n_discussion_id :: int
  n_read :: bool
  n_created_at :: timestamp

record next_id =
  nx_discussion :: int
  nx_reply :: int
  nx_notification :: int

record db =
  sections :: "plan_section list"
  discussions :: "discussion list"
  notifications :: "notification list"
  nextId :: next_id

text \<open>
  \<open>db.nextId.discussion++\<close> and the other two counters: the expression has the old
  value, and the counter becomes that value plus one as a double computes it. From
  \<open>-2^53\<close> up to \<open>2^53 - 1\<close> the sum is exact. From \<open>2^53\<close> on, the doubles that
  hold integers are two or more apart, and the sum is rounded to the nearest of
  them, to the one with the even significand when it lies halfway: the counter
  stays as it is, or, between \<open>2^53\<close> and \<open>2^54\<close> at an odd multiple of two, goes up
  by two.
\<close>

definition increment :: "int \<Rightarrow> int" where
  "increment n =
     (if - (2 ^ 53) \<le> n \<and> n < 2 ^ 53 then n + 1
      else if \<bar>n\<bar> < 2 ^ 54 \<and> odd (\<bar>n\<bar> div 2) then n + 2
      else n)"

section \<open>Session store\<close>

text \<open>
  \<open>sessions\<close> is a \<open>Map\<close> from tokens to \<open>{ expiresAt }\<close>. The token handed to
  \<open>validateSession\<close> comes from a cookie or a header and may be \<open>undefined\<close>
  (\<open>None\<close>); \<open>!token\<close> is also true of the empty string. \<open>Date.now()\<close> is the
  argument \<open>now\<close>.
\<close>

record session =
  expiresAt :: int

type_synonym sessions = "string \<rightharpoonup> session"

definition createSession :: "string \<Rightarrow> int \<Rightarrow> sessions \<Rightarrow> string \<times> sessions" where
  "createSession token now ss =
     (let expires = now + (7 * 24 * 60 * 60 * 1000)
      in (token, ss(token \<mapsto> \<lparr>expiresAt = expires\<rparr>)))"

definition validateSession :: "string option \<Rightarrow> int \<Rightarrow> sessions \<Rightarrow> bool \<times> sessions" where
  "validateSession token now ss =
     (case token of
        None \<Rightarrow> (False, ss)
      | Some t \<Rightarrow>
          if t = [] then (False, ss)
          else (case ss t of
                  None \<Rightarrow> (False, ss)
                | Some s \<Rightarrow>
                    if now > expiresAt s then (False, ss(t := None))
                    else (True, ss)))"

section \<open>The JSON text of the file\<close>

text \<open>
  \<open>saveDB\<close> writes \<open>JSON.stringify(data, null, 2)\<close> and \<open>loadDB\<close> reads the file
  with \<open>JSON.parse\<close>. Both belong to the language runtime; this section models
  them on the values the store is made of: \<open>null\<close>, booleans, integers, strings,
  arrays and objects with their properties in order. A string is the list of its
  bytes in the encoding of the file (UTF-8), and the text of a file is taken to be
  well-formed in that encoding.

  \<open>stringify ind v\<close> is the text of \<open>v\<close> at indentation \<open>ind\<close> with a gap of two
  spaces: an empty array or object is \<open>[]\<close> or \<open>{}\<close>; otherwise every element or
  property is on a line of its own, indented by the gap, separated by \<open>,\<close> and a
  line feed, and the closing bracket is on a line at the old indentation. A string
  is quoted, with the quote, the backslash and the control characters escaped. An
  integer is written in decimal (as JavaScript does below \<open>10^21\<close>).

  \<open>JSON_parse\<close> has three outcomes: the value of the text, a syntax error (where
  \<open>JSON.parse\<close> throws), and \<open>Unmodelled\<close> for text whose value is none of the values
  above or is not settled by this parser: a number with a fraction or an exponent,
  a \<open>u\<close> escape beyond ASCII, an object with a repeated key or with a key made of
  digits (JavaScript keeps such keys in numeric order), or nesting deeper than the
  text is long. The parser runs on fuel, one unit per level of nesting.
\<close>

datatype json =
    JNull
  | JBool bool
  | JNum int
  | JStr string
  | JArr "json list"
  | JObj "(string \<times> json) list"

datatype 'a outcome = Parsed 'a | Syntax_error | Unmodelled

definition is_ws :: "char \<Rightarrow> bool" where
  "is_ws c = (c = CHR '' '' \<or> c = CHR 0x0A \<or> c = CHR 0x0D \<or> c = CHR 0x09)"

definition is_digit :: "char \<Rightarrow> bool" where
  "is_digit c = (48 \<le> (of_char c :: nat) \<and> (of_char c :: nat) \<le> 57)"

definition digit_char :: "nat \<Rightarrow> char" where
  "digit_char d = char_of (48 + d)"

definition digit_val :: "char \<Rightarrow> nat" where
  "digit_val c = of_char c - 48"

function show_nat :: "nat \<Rightarrow> string" where
  "show_nat n = (if n < 10 then [digit_char n] else show_nat (n div 10) @ [digit_char (n mod 10)])"
  by pat_completeness auto
termination
  by (relation "measure id") auto

definition show_int :: "int \<Rightarrow> string" where
  "show_int i = (if i < 0 then CHR ''-'' # show_nat (nat (- i)) else show_nat (nat i))"

definition read_nat :: "string \<Rightarrow> nat" where
  "read_nat ds = foldl (\<lambda>acc c. 10 * acc + digit_val c) 0 ds"

definition number_goes_on :: "string \<Rightarrow> bool" where
  "number_goes_on r = (case r of [] \<Rightarrow> False | c # _ \<Rightarrow> c = CHR ''.'' \<or> c = CHR ''e'' \<or> c = CHR ''E'')"

definition parse_number :: "string \<Rightarrow> (json \<times> string) outcome" where
  "parse_number s =
     (let negative = (case s of [] \<Rightarrow> False | c # _ \<Rightarrow> c = CHR ''-'');
          body = (if negative then tl s else s);
          ds = takeWhile is_digit body;
          r = dropWhile is_digit body
      in if ds = [] then Syntax_error
         else if hd ds = CHR ''0'' \<and> tl ds \<noteq> [] then Syntax_error
         else if number_goes_on r then Unmodelled
         else Parsed (JNum (if negative then - int (read_nat ds) else int (read_nat ds)), r))"

definition number_end :: "string \<Rightarrow> bool" where
  "number_end r = (case r of [] \<Rightarrow> True | c # _ \<Rightarrow> \<not> is_digit c \<and> \<not> number_goes_on r)"

definition hex_digit :: "nat \<Rightarrow> char" where
  "hex_digit k = (if k < 10 then char_of (48 + k) else char_of (87 + k))"

definition hex_val :: "char \<Rightarrow> nat option" where
  "hex_val c =
     (let n = (of_char c :: nat)
      in if 48 \<le> n \<and> n \<le> 57 then Some (n - 48)
         else if 97 \<le> n \<and> n \<le> 102 then Some (n - 87)
         else if 65 \<le> n \<and> n \<le> 70 then Some (n - 55)
         else None)"

definition escape_char :: "char \<Rightarrow> string" where
  "escape_char c =
     (if c = CHR 0x22 then [CHR 0x5C, CHR 0x22]
      else if c = CHR 0x5C then [CHR 0x5C, CHR 0x5C]
      else if c = CHR 0x08 then [CHR 0x5C, CHR ''b'']
      else if c = CHR 0x0C then [CHR 0x5C, CHR ''f'']
      else if c = CHR 0x0A then [CHR 0x5C, CHR ''n'']
      else if c = CHR 0x0D then [CHR 0x5C, CHR ''r'']
      else if c = CHR 0x09 then [CHR 0x5C, CHR ''t'']
      else if (of_char c :: nat) < 32 then
        [CHR 0x5C, CHR ''u'', CHR ''0'', CHR ''0'',
         hex_digit ((of_char c :: nat) div 16), hex_digit ((of_char c :: nat) mod 16)]
      else [c])"

definition quote :: "string \<Rightarrow> string" where
  "quote s = CHR 0x22 # concat (map escape_char s) @ [CHR 0x22]"

definition unescape :: "char \<Rightarrow> char option" where
  "unescape e =
     (if e = CHR 0x22 then Some (CHR 0x22)
      else if e = CHR 0x5C then Some (CHR 0x5C)
      else if e = CHR ''/'' then Some (CHR ''/'')
      else if e = CHR ''b'' then Some (CHR 0x08)
      else if e = CHR ''f'' then Some (CHR 0x0C)
      else if e = CHR ''n'' then Some (CHR 0x0A)
      else if e = CHR ''r'' then Some (CHR 0x0D)
      else if e = CHR ''t'' then Some (CHR 0x09)
      else None)"

definition hex4 :: "char \<Rightarrow> char \<Rightarrow> char \<Rightarrow> char \<Rightarrow> nat option" where
  "hex4 a b c d =
     (case (hex_val a, hex_val b, hex_val c, hex_val d) of
        (Some x, Some y, Some z, Some w) \<Rightarrow> Some (((x * 16 + y) * 16 + z) * 16 + w)
      | _ \<Rightarrow> None)"

definition prepend :: "char \<Rightarrow> (string \<times> string) outcome \<Rightarrow> (string \<times> string) outcome" where
  "prepend c r = (case r of Parsed (s, rest) \<Rightarrow> Parsed (c # s, rest) | Syntax_error \<Rightarrow> Syntax_error
                  | Unmodelled \<Rightarrow> Unmodelled)"

fun parse_chars :: "string \<Rightarrow> (string \<times> string) outcome" where
  "parse_chars [] = Syntax_error"
| "parse_chars (c # cs) =
     (if c = CHR 0x22 then Parsed ([], cs)
      else if c = CHR 0x5C then
        (case cs of
           [] \<Rightarrow> Syntax_error
         | e # r \<Rightarrow>
             if e = CHR ''u'' then
               (case r of
                  h1 # h2 # h3 # h4 # r' \<Rightarrow>
                    (case hex4 h1 h2 h3 h4 of
                       None \<Rightarrow> Syntax_error
                     | Some v \<Rightarrow>
                         if v < 128 then prepend (char_of v) (parse_chars r') else Unmodelled)
                | _ \<Rightarrow> Syntax_error)
             else (case unescape e of
                     None \<Rightarrow> Syntax_error
                   | Some x \<Rightarrow> prepend x (parse_chars r)))
      else if (of_char c :: nat) < 32 then Syntax_error
      else prepend c (parse_chars cs))"

fun stringify :: "string \<Rightarrow> json \<Rightarrow> string"
  and stringify_list :: "string \<Rightarrow> json list \<Rightarrow> string"
  and stringify_props :: "string \<Rightarrow> (string \<times> json) list \<Rightarrow> string"
where
  "stringify ind JNull = ''null''"
| "stringify ind (JBool b) = (if b then ''true'' else ''false'')"
| "stringify ind (JNum i) = show_int i"
| "stringify ind (JStr s) = quote s"
| "stringify ind (JArr vs) =
     (if vs = [] then ''[]''
      else CHR ''['' # CHR 0x0A # (ind @ ''  '') @ stringify_list (ind @ ''  '') vs
             @ CHR 0x0A # ind @ '']'')"
| "stringify ind (JObj ps) =
     (if ps = [] then ''{}''
      else CHR ''{'' # CHR 0x0A # (ind @ ''  '') @ stringify_props (ind @ ''  '') ps
             @ CHR 0x0A # ind @ ''}'')"
| "stringify_list ind [] = []"
| "stringify_list ind (v # vs) =
     stringify ind v @ (if vs = [] then [] else CHR '','' # CHR 0x0A # ind @ stringify_list ind vs)"
| "stringify_props ind [] = []"
| "stringify_props ind (p # ps) =
     quote (fst p) @ CHR '':'' # CHR '' '' # stringify ind (snd p)
       @ (if ps = [] then [] else CHR '','' # CHR 0x0A # ind @ stringify_props ind ps)"

definition JSON_stringify :: "json \<Rightarrow> string" where
  "JSON_stringify j = stringify [] j"

definition keyword :: "string \<Rightarrow> json \<Rightarrow> string \<Rightarrow> (json \<times> string) outcome" where
  "keyword letters v cs =
     (if take (length letters) cs = letters then Parsed (v, drop (length letters) cs)
      else Syntax_error)"

definition plain_key :: "string \<Rightarrow> bool" where
  "plain_key k = (k = [] \<or> (\<exists>c \<in> set k. \<not> is_digit c))"

definition object_of :: "((string \<times> json) list \<times> string) outcome \<Rightarrow> (json \<times> string) outcome" where
  "object_of r =
     (case r of
        Parsed (ps, rest) \<Rightarrow>
          if distinct (map fst ps) \<and> (\<forall>k \<in> set (map fst ps). plain_key k)
          then Parsed (JObj ps, rest) else Unmodelled
      | Syntax_error \<Rightarrow> Syntax_error
      | Unmodelled \<Rightarrow> Unmodelled)"

definition array_of :: "(json list \<times> string) outcome \<Rightarrow> (json \<times> string) outcome" where
  "array_of r =
     (case r of
        Parsed (vs, rest) \<Rightarrow> Parsed (JArr vs, rest)
      | Syntax_error \<Rightarrow> Syntax_error
      | Unmodelled \<Rightarrow> Unmodelled)"

fun parse_value :: "nat \<Rightarrow> string \<Rightarrow> (json \<times> string) outcome"
  and parse_elements :: "nat \<Rightarrow> string \<Rightarrow> (json list \<times> string) outcome"
  and parse_members :: "nat \<Rightarrow> string \<Rightarrow> ((string \<times> json) list \<times> string) outcome"
where
  "parse_value 0 s = Unmodelled"
| "parse_value (Suc n) s =
     (case dropWhile is_ws s of
        [] \<Rightarrow> Syntax_error
      | c # cs \<Rightarrow>
          if c = CHR ''n'' then keyword ''ull'' JNull cs
          else if c = CHR ''t'' then keyword ''rue'' (JBool True) cs
          else if c = CHR ''f'' then keyword ''alse'' (JBool False) cs
          else if c = CHR 0x22 then
            (case parse_chars cs of
               Parsed (str, r) \<Rightarrow> Parsed (JStr str, r)
             | Syntax_error \<Rightarrow> Syntax_error
             | Unmodelled \<Rightarrow> Unmodelled)
          else if c = CHR ''['' then
            (case dropWhile is_ws cs of
               [] \<Rightarrow> Syntax_error
             | d # r \<Rightarrow> if d = CHR '']'' then Parsed (JArr [], r)
                        else array_of (parse_elements n cs))
          else if c = CHR ''{'' then
            (case dropWhile is_ws cs of
               [] \<Rightarrow> Syntax_error
             | d # r \<Rightarrow> if d = CHR ''}'' then Parsed (JObj [], r)
                        else object_of (parse_members n cs))
          else if c = CHR ''-'' \<or> is_digit c then parse_number (c # cs)
          else Syntax_error)"
| "parse_elements 0 s = Unmodelled"
| "parse_elements (Suc n) s =
     (case parse_value n s of
        Parsed (v, r) \<Rightarrow>
          (case dropWhile is_ws r of
             [] \<Rightarrow> Syntax_error
           | d # r' \<Rightarrow>
               if d = CHR '','' then
                 (case parse_elements n r' of
                    Parsed (vs, r'') \<Rightarrow> Parsed (v # vs, r'')
                  | Syntax_error \<Rightarrow> Syntax_error
                  | Unmodelled \<Rightarrow> Unmodelled)
               else if d = CHR '']'' then Parsed ([v], r')
               else Syntax_error)
      | Syntax_error \<Rightarrow> Syntax_error
      | Unmodelled \<Rightarrow> Unmodelled)"
| "parse_members 0 s = Unmodelled"
| "parse_members (Suc n) s =
     (case dropWhile is_ws s of
        [] \<Rightarrow> Syntax_error
      | q # cs \<Rightarrow>
          if q \<noteq> CHR 0x22 then Syntax_error
          else
            (case parse_chars cs of
               Parsed (k, r) \<Rightarrow>
                 (case dropWhile is_ws r of
                    [] \<Rightarrow> Syntax_error
                  | colon # r1 \<Rightarrow>
                      if colon \<noteq> CHR '':'' then Syntax_error
                      else
                        (case parse_value n r1 of
                           Parsed (v, r2) \<Rightarrow>
                             (case dropWhile is_ws r2 of
                                [] \<Rightarrow> Syntax_error
                              | d # r3 \<Rightarrow>
                                  if d = CHR '','' then
                                    (case parse_members n r3 of
                                       Parsed (ps, r4) \<Rightarrow> Parsed ((k, v) # ps, r4)
                                     | Syntax_error \<Rightarrow> Syntax_error
                                     | Unmodelled \<Rightarrow> Unmodelled)
                                  else if d = CHR ''}'' then Parsed ([(k, v)], r3)
                                  else Syntax_error)
                         | Syntax_error \<Rightarrow> Syntax_error
                         | Unmodelled \<Rightarrow> Unmodelled))
             | Syntax_error \<Rightarrow> Syntax_error
             | Unmodelled \<Rightarrow> Unmodelled))"

definition JSON_parse :: "string \<Rightarrow> json outcome" where
  "JSON_parse text =
     (case parse_value (Suc (length text)) text of
        Parsed (j, r) \<Rightarrow> if dropWhile is_ws r = [] then Parsed j else Syntax_error
      | Syntax_error \<Rightarrow> Syntax_error
      | Unmodelled \<Rightarrow> Unmodelled)"

fun wf_json :: "json \<Rightarrow> bool" where
  "wf_json (JArr vs) = (\<forall>v \<in> set vs. wf_json v)"
| "wf_json (JObj ps) =
     (distinct (map fst ps) \<and> (\<forall>k \<in> set (map fst ps). plain_key k)
      \<and> (\<forall>p \<in> set ps. wf_json (snd p)))"
| "wf_json _ = True"

fun need :: "json \<Rightarrow> nat"
  and need_list :: "json list \<Rightarrow> nat"
  and need_props :: "(string \<times> json) list \<Rightarrow> nat"
where
  "need JNull = 1"
| "need (JBool b) = 1"
| "need (JNum i) = 1"
| "need (JStr s) = 1"
| "need (JArr vs) = Suc (need_list vs)"
| "need (JObj ps) = Suc (need_props ps)"
| "need_list [] = 0"
| "need_list (v # vs) = Suc (max (need v) (need_list vs))"
| "need_props [] = 0"
| "need_props (p # ps) = Suc (max (need (snd p)) (need_props ps))"

definition ws :: "string \<Rightarrow> bool" where
  "ws w = (\<forall>c \<in> set w. is_ws c)"

definition starts_value :: "char \<Rightarrow> bool" where
  "starts_value c =
     (c = CHR ''n'' \<or> c = CHR ''t'' \<or> c = CHR ''f'' \<or> c = CHR 0x22 \<or> c = CHR ''[''
      \<or> c = CHR ''{'' \<or> c = CHR ''-'' \<or> is_digit c)"

section \<open>The store as a JSON value\<close>

text \<open>
  The object \<open>db\<close> as the tree \<open>JSON.stringify\<close> walks: the properties of every
  object in the order in which the code creates them (\<open>updated_at\<close> is added to a
  section by its first edit). A time stamp, which the file holds as ISO text,
  appears as the number of milliseconds that the model keeps for it.
\<close>

definition nullable :: "('a \<Rightarrow> json) \<Rightarrow> 'a option \<Rightarrow> json" where
  "nullable f x = (case x of None \<Rightarrow> JNull | Some a \<Rightarrow> f a)"

definition section_json :: "plan_section \<Rightarrow> json" where
  "section_json s =
     JObj ([(''id'', JNum (s_id s)),
            (''title'', JStr (s_title s)),
            (''level'', JNum (s_level s)),
            (''content'', JStr (s_content s))]
           @ (case s_updated_at s of None \<Rightarrow> [] | Some t \<Rightarrow> [(''updated_at'', JNum t)]))"

definition reply_json :: "reply \<Rightarrow> json" where
  "reply_json r =
     JObj [(''id'', JNum (r_id r)),
           (''text'', JStr (r_text r)),
           (''author'', JStr (r_author r)),
           (''created_at'', JNum (r_created_at r))]"

definition discussion_json :: "discussion \<Rightarrow> json" where
  "discussion_json d =
     JObj [(''id'', JNum (d_id d)),
           (''section_id'', nullable JNum (d_section_id d)),
           (''type'', JStr (d_type d)),
           (''text'', JStr (d_text d)),
           (''author'', JStr (d_author d)),
           (''resolved'', JBool (d_resolved d)),
           (''resolved_by'', nullable JStr (d_resolved_by d)),
           (''resolved_at'', nullable JNum (d_resolved_at d)),
           (''created_at'', JNum (d_created_at d)),
           (''replies'', JArr (map reply_json (d_replies d)))]"

definition notification_json :: "notification \<Rightarrow> json" where
  "notification_json n =
     JObj [(''id'', JNum (n_id n)),
           (''user'', JStr (n_user n)),
           (''type'', JStr (n_type n)),
           (''message'', JStr (n_message n)),
           (''discussion_id'', JNum (n_discussion_id n)),
           (''read'', JBool (n_read n)),
           (''created_at'', JNum (n_created_at n))]"

definition db_json :: "db \<Rightarrow> json" where
  "db_json data =
     JObj [(''sections'', JArr (map section_json (sections data))),
           (''discussions'', JArr (map discussion_json (discussions data))),
           (''notifications'', JArr (map notification_json (notifications data))),
           (''nextId'',
              JObj [(''discussion'', JNum (nx_discussion (nextId data))),
                    (''reply'', JNum (nx_reply (nextId data))),
                    (''notification'', JNum (nx_notification (nextId data)))])]"

text \<open>
  The other direction reads a parsed value as a store. JavaScript needs no such
  step, the parsed object is the store; the model needs it because its store is
  typed. \<open>json_db\<close> answers only for a value that is exactly the tree of a store and
  \<open>None\<close> for every other value (another shape, other or reordered properties).
\<close>

definition as_int :: "json \<Rightarrow> int option" where
  "as_int j = (case j of JNum i \<Rightarrow> Some i | _ \<Rightarrow> None)"

definition as_string :: "json \<Rightarrow> string option" where
  "as_string j = (case j of JStr s \<Rightarrow> Some s | _ \<Rightarrow> None)"

definition as_bool :: "json \<Rightarrow> bool option" where
  "as_bool j = (case j of JBool b \<Rightarrow> Some b | _ \<Rightarrow> None)"

definition as_nullable :: "(json \<Rightarrow> 'a option) \<Rightarrow> json \<Rightarrow> 'a option option" where
  "as_nullable f j = (case j of JNull \<Rightarrow> Some None | _ \<Rightarrow> map_option Some (f j))"

definition as_list :: "(json \<Rightarrow> 'a option) \<Rightarrow> json \<Rightarrow> 'a list option" where
  "as_list f j = (case j of JArr vs \<Rightarrow> those (map f vs) | _ \<Rightarrow> None)"

definition property :: "string \<Rightarrow> (json \<Rightarrow> 'a option) \<Rightarrow> json \<Rightarrow> 'a option" where
  "property k f j =
     (case j of
        JObj ps \<Rightarrow> (case map_of ps k of None \<Rightarrow> None | Some v \<Rightarrow> f v)
      | _ \<Rightarrow> None)"

definition optional_property :: "string \<Rightarrow> (json \<Rightarrow> 'a option) \<Rightarrow> json \<Rightarrow> 'a option option" where
  "optional_property k f j =
     (case j of
        JObj ps \<Rightarrow> (case map_of ps k of None \<Rightarrow> Some None | Some v \<Rightarrow> map_option Some (f v))
      | _ \<Rightarrow> None)"

definition read_section :: "json \<Rightarrow> plan_section option" where
  "read_section j =
     (case (property ''id'' as_int j, property ''title'' as_string j,
            property ''level'' as_int j, property ''content'' as_string j,
            optional_property ''updated_at'' as_int j) of
        (Some i, Some t, Some l, Some c, Some u) \<Rightarrow>
          Some \<lparr>s_id = i, s_title = t, s_level = l, s_content = c, s_updated_at = u\<rparr>
      | _ \<Rightarrow> None)"

definition read_reply :: "json \<Rightarrow> reply option" where
  "read_reply j =
     (case (property ''id'' as_int j, property ''text'' as_string j,
            property ''author'' as_string j, property ''created_at'' as_int j) of
        (Some i, Some t, Some a, Some c) \<Rightarrow>
          Some \<lparr>r_id = i, r_text = t, r_author = a, r_created_at = c\<rparr>
      | _ \<Rightarrow> None)"

definition read_discussion :: "json \<Rightarrow> discussion option" where
  "read_discussion j =
     (case (property ''id'' as_int j, property ''section_id'' (as_nullable as_int) j,
            property ''type'' as_string j, property ''text'' as_string j,
            property ''author'' as_string j) of
        (Some i, Some s, Some ty, Some t, Some a) \<Rightarrow>
          (case (property ''resolved'' as_bool j,
                 property ''resolved_by'' (as_nullable as_string) j,
                 property ''resolved_at'' (as_nullable as_int) j,
                 property ''created_at'' as_int j,
                 property ''replies'' (as_list read_reply) j) of
             (Some r, Some rb, Some ra, Some c, Some rs) \<Rightarrow>
               Some \<lparr>d_id = i, d_section_id = s, d_type = ty, d_text = t, d_author = a,
                     d_resolved = r, d_resolved_by = rb, d_resolved_at = ra,
                     d_created_at = c, d_replies = rs\<rparr>
           | _ \<Rightarrow> None)
      | _ \<Rightarrow> None)"

definition read_notification :: "json \<Rightarrow> notification option" where
  "read_notification j =
     (case (property ''id'' as_int j, property ''user'' as_string j,
            property ''type'' as_string j, property ''message'' as_string j,
            property ''discussion_id'' as_int j, property ''read'' as_bool j,
            property ''created_at'' as_int j) of
        (Some i, Some u, Some ty, Some m, Some d, Some r, Some c) \<Rightarrow>
          Some \<lparr>n_id = i, n_user = u, n_type = ty, n_message = m, n_discussion_id = d,
                n_read = r, n_created_at = c\<rparr>
      | _ \<Rightarrow> None)"

definition read_next_id :: "json \<Rightarrow> next_id option" where
  "read_next_id j =
     (case (property ''discussion'' as_int j, property ''reply'' as_int j,
            property ''notification'' as_int j) of
        (Some d, Some r, Some n) \<Rightarrow>
          Some \<lparr>nx_discussion = d, nx_reply = r, nx_notification = n\<rparr>
      | _ \<Rightarrow> None)"

definition read_db :: "json \<Rightarrow> db option" where
  "read_db j =
     (case (property ''sections'' (as_list read_section) j,
            property ''discussions'' (as_list read_discussion) j,
            property ''notifications'' (as_list read_notification) j,
            property ''nextId'' read_next_id j) of
        (Some ss, Some ds, Some ns, Some nx) \<Rightarrow>
          Some \<lparr>sections = ss, discussions = ds, notifications = ns, nextId = nx\<rparr>
      | _ \<Rightarrow> None)"

definition json_db :: "json \<Rightarrow> db option" where
  "json_db j =
     (case read_db j of
        None \<Rightarrow> None
      | Some data \<Rightarrow> if db_json data = j then Some data else None)"

section \<open>Persistence\<close>

text \<open>
  The process state is the variable \<open>db\<close> (\<open>mem\<close>) and the file \<open>data.json\<close>
  (\<open>disk\<close>: its text, \<open>None\<close> while the file does not exist). \<open>saveDB\<close> overwrites
  the file with the text of the whole object. \<open>loadDB\<close> returns what the file
  parses to; when there is no file, or when parsing throws, it returns a new store
  and writes it. For a file whose value is not a store of the data model \<open>loadDB\<close>
  has no answer in the model (\<open>None\<close>). The seed list \<open>getBusinessPlanSections()\<close>
  is several hundred lines of plan text, which no handler inspects; it is the
  parameter \<open>seed\<close>.
\<close>

type_synonym data_file = "string option"

definition saveDB :: "db \<Rightarrow> data_file \<Rightarrow> data_file" where
  "saveDB data f = Some (JSON_stringify (db_json data))"

definition initializeDB :: "plan_section list \<Rightarrow> data_file \<Rightarrow> db \<times> data_file" where
  "initializeDB seed f =
     (let data = \<lparr>sections = seed, discussions = [], notifications = [],
                  nextId = \<lparr>nx_discussion = 1, nx_reply = 1, nx_notification = 1\<rparr>\<rparr>
      in (data, saveDB data f))"

definition loadDB :: "plan_section list \<Rightarrow> data_file \<Rightarrow> (db \<times> data_file) option" where
  "loadDB seed f =
     (case f of
        None \<Rightarrow> Some (initializeDB seed f)
      | Some text \<Rightarrow>
          (case JSON_parse text of
             Parsed j \<Rightarrow> (case json_db j of Some data \<Rightarrow> Some (data, f) | None \<Rightarrow> None)
           | Syntax_error \<Rightarrow> Some (initializeDB seed f)
           | Unmodelled \<Rightarrow> None))"

record world =
  mem :: db
  disk :: data_file

text \<open>\<open>let db = loadDB();\<close> when the process starts.\<close>

definition startup :: "plan_section list \<Rightarrow> data_file \<Rightarrow> world option" where
  "startup seed f =
     (case loadDB seed f of
        None \<Rightarrow> None
      | Some (data, f') \<Rightarrow> Some \<lparr>mem = data, disk = f'\<rparr>)"

section \<open>Requests and responses\<close>

text \<open>
  Request bodies carry the fields of the API contract at their types; a
  \<open>section_id\<close> is a number below \<open>10^21\<close> in size, which \<open>parseInt\<close> returns as it
  is. The path
  parameter \<open>:id\<close> goes through \<open>parseInt\<close> in every handler; the handlers of the
  model take the outcome, \<open>None\<close> for \<open>NaN\<close>, which is equal to no id. Each
  \<open>new Date()\<close> a handler evaluates is a reading \<open>clock k\<close>, numbered in the order of
  evaluation.
\<close>

record discussion_body =
  b_section_id :: "int option"
  b_type :: string
  b_text :: string
  b_author :: string

record reply_body =
  rb_text :: string
  rb_author :: string

record resolve_body =
  rs_resolved :: bool
  rs_resolved_by :: "string option"

record section_body =
  sb_title :: string
  sb_content :: string

datatype response =
    Json_id int
  | Json_success
  | Json_discussions "(discussion \<times> string option) list"
  | Json_notifications "notification list"
  | Status404 string

text \<open>
  \<open>find\<close> is \<open>Array.prototype.find\<close>. A handler that assigns to fields of the
  object \<open>find\<close> returned changes the first element of the array that satisfies the
  predicate; \<open>update_first\<close> is that change.
\<close>

fun update_first :: "('a \<Rightarrow> bool) \<Rightarrow> ('a \<Rightarrow> 'a) \<Rightarrow> 'a list \<Rightarrow> 'a list" where
  "update_first P f [] = []"
| "update_first P f (x # xs) = (if P x then f x # xs else x # update_first P f xs)"

definition has_id :: "int option \<Rightarrow> discussion \<Rightarrow> bool" where
  "has_id pid d = (Some (d_id d) = pid)"

section \<open>Discussion handlers\<close>


text \<open>\<open>app.post('/api/discussions')\<close>\<close>

definition post_discussions ::
  "discussion_body \<Rightarrow> (nat \<Rightarrow> timestamp) \<Rightarrow> world \<Rightarrow> response \<times> world" where
  "post_discussions body clock w =
     (let db0 = mem w;
          discussion =
            \<lparr>d_id = nx_discussion (nextId db0),
             d_section_id = (case b_section_id body of
                               None \<Rightarrow> None
                             | Some k \<Rightarrow> if k = 0 then None else Some k),
             d_type = b_type body,
             d_text = b_text body,
             d_author = b_author body,
             d_resolved = False,
             d_resolved_by = None,
             d_resolved_at = None,
             d_created_at = clock 0,
             d_replies = []\<rparr>;
          db1 = db0\<lparr>nextId := (nextId db0)\<lparr>nx_discussion := increment (nx_discussion (nextId db0))\<rparr>,
                    discussions := discussions db0 @ [discussion]\<rparr>;
          otherUser = (if b_author body = ''Francisco'' then ''Wife'' else ''Francisco'');
          db2 = db1\<lparr>notifications := notifications db1 @
                      [\<lparr>n_id = nx_notification (nextId db1),
                        n_user = otherUser,
                        n_type = b_type body,
                        n_message = b_author body @ '' added a '' @ b_type body,
                        n_discussion_id = d_id discussion,
                        n_read = False,
                        n_created_at = clock 1\<rparr>],
                    nextId := (nextId db1)\<lparr>nx_notification := increment (nx_notification (nextId db1))\<rparr>\<rparr>
      in (Json_id (d_id discussion), w\<lparr>mem := db2, disk := saveDB db2 (disk w)\<rparr>))"

text \<open>
  \<open>app.post('/api/discussions/:id/replies')\<close>. The \<open>forEach\<close> over the users left by
  the filter is \<open>notify_reply\<close>: one push and one counter increment per user.
\<close>

fun notify_reply ::
  "string \<Rightarrow> int \<Rightarrow> (nat \<Rightarrow> timestamp) \<Rightarrow> nat \<Rightarrow> string list \<Rightarrow> db \<Rightarrow> db" where
  "notify_reply author did clock k [] d = d"
| "notify_reply author did clock k (user # users) d =
     notify_reply author did clock (Suc k) users
       (d\<lparr>notifications := notifications d @
             [\<lparr>n_id = nx_notification (nextId d),
               n_user = user,
               n_type = ''reply'',
               n_message = author @ '' replied to a discussion'',
               n_discussion_id = did,
               n_read = False,
               n_created_at = clock k\<rparr>],
          nextId := (nextId d)\<lparr>nx_notification := increment (nx_notification (nextId d))\<rparr>\<rparr>)"

definition post_replies ::
  "int option \<Rightarrow> reply_body \<Rightarrow> (nat \<Rightarrow> timestamp) \<Rightarrow> world \<Rightarrow> response \<times> world" where
  "post_replies pid body clock w =
     (case find (has_id pid) (discussions (mem w)) of
        Some discussion \<Rightarrow>
          (let db0 = mem w;
               reply = \<lparr>r_id = nx_reply (nextId db0),
                        r_text = rb_text body,
                        r_author = rb_author body,
                        r_created_at = clock 0\<rparr>;
               db1 = db0\<lparr>nextId := (nextId db0)\<lparr>nx_reply := increment (nx_reply (nextId db0))\<rparr>,
                         discussions :=
                           update_first (has_id pid)
                             (\<lambda>d. d\<lparr>d_replies := d_replies d @ [reply]\<rparr>) (discussions db0)\<rparr>;
               db2 = notify_reply (rb_author body) (d_id discussion) clock 1
                       (filter (\<lambda>u. u \<noteq> rb_author body) [''Francisco'', ''Wife'']) db1
           in (Json_id (r_id reply), w\<lparr>mem := db2, disk := saveDB db2 (disk w)\<rparr>))
      | None \<Rightarrow> (Status404 ''Discussion not found'', w))"

text \<open>\<open>app.patch('/api/discussions/:id/resolve')\<close>\<close>

definition patch_resolve ::
  "int option \<Rightarrow> resolve_body \<Rightarrow> (nat \<Rightarrow> timestamp) \<Rightarrow> world \<Rightarrow> response \<times> world" where
  "patch_resolve pid body clock w =
     (case find (has_id pid) (discussions (mem w)) of
        Some discussion \<Rightarrow>
          (let db0 = mem w;
               db1 = db0\<lparr>discussions :=
                           update_first (has_id pid)
                             (\<lambda>d. d\<lparr>d_resolved := rs_resolved body,
                                    d_resolved_by :=
                                      (if rs_resolved body then rs_resolved_by body else None),
                                    d_resolved_at :=
                                      (if rs_resolved body then Some (clock 0) else None)\<rparr>)
                             (discussions db0)\<rparr>
           in (Json_success, w\<lparr>mem := db1, disk := saveDB db1 (disk w)\<rparr>))
      | None \<Rightarrow> (Json_success, w))"

text \<open>\<open>app.delete('/api/discussions/:id')\<close>\<close>

definition delete_discussion :: "int option \<Rightarrow> world \<Rightarrow> response \<times> world" where
  "delete_discussion pid w =
     (let db0 = mem w;
          db1 = db0\<lparr>discussions := filter (\<lambda>d. \<not> has_id pid d) (discussions db0)\<rparr>
      in (Json_success, w\<lparr>mem := db1, disk := saveDB db1 (disk w)\<rparr>))"

text \<open>\<open>app.put('/api/sections/:id')\<close>\<close>

definition put_section ::
  "int option \<Rightarrow> section_body \<Rightarrow> (nat \<Rightarrow> timestamp) \<Rightarrow> world \<Rightarrow> response \<times> world" where
  "put_section pid body clock w =
     (case find (\<lambda>s. Some (s_id s) = pid) (sections (mem w)) of
        Some section \<Rightarrow>
          (let db0 = mem w;
               db1 = db0\<lparr>sections :=
                           update_first (\<lambda>s. Some (s_id s) = pid)
                             (\<lambda>s. s\<lparr>s_title := sb_title body,
                                    s_content := sb_content body,
                                    s_updated_at := Some (clock 0)\<rparr>)
                             (sections db0)\<rparr>
           in (Json_success, w\<lparr>mem := db1, disk := saveDB db1 (disk w)\<rparr>))
      | None \<Rightarrow> (Json_success, w))"

section \<open>Notification handlers\<close>

text \<open>
  \<open>Array.prototype.sort\<close> with a comparison function is a stable sort: elements the
  function does not order keep their order. \<open>Array_sort\<close> is the stable insertion
  sort for a comparison function with a number as its result; an element goes in
  front of the first one it is not greater than.
\<close>

fun insert_by :: "('a \<Rightarrow> 'a \<Rightarrow> int) \<Rightarrow> 'a \<Rightarrow> 'a list \<Rightarrow> 'a list" where
  "insert_by cmp x [] = [x]"
| "insert_by cmp x (y # ys) = (if cmp x y \<le> 0 then x # y # ys else y # insert_by cmp x ys)"

definition Array_sort :: "('a \<Rightarrow> 'a \<Rightarrow> int) \<Rightarrow> 'a list \<Rightarrow> 'a list" where
  "Array_sort cmp xs = foldr (insert_by cmp) xs []"

text \<open>\<open>app.get('/api/notifications/:user')\<close>\<close>

definition newest_first :: "notification \<Rightarrow> notification \<Rightarrow> int" where
  "newest_first a b = n_created_at b - n_created_at a"

definition list_for_user :: "string \<Rightarrow> world \<Rightarrow> notification list" where
  "list_for_user user w =
     take 50 (Array_sort newest_first (filter (\<lambda>n. n_user n = user) (notifications (mem w))))"

definition get_notifications :: "string \<Rightarrow> world \<Rightarrow> response" where
  "get_notifications user w = Json_notifications (list_for_user user w)"

text \<open>\<open>app.patch('/api/notifications/:id/read')\<close>\<close>

definition patch_read :: "int option \<Rightarrow> world \<Rightarrow> response \<times> world" where
  "patch_read pid w =
     (case find (\<lambda>n. Some (n_id n) = pid) (notifications (mem w)) of
        Some notification \<Rightarrow>
          (let db0 = mem w;
               db1 = db0\<lparr>notifications :=
                           update_first (\<lambda>n. Some (n_id n) = pid) (\<lambda>n. n\<lparr>n_read := True\<rparr>)
                             (notifications db0)\<rparr>
           in (Json_success, w\<lparr>mem := db1, disk := saveDB db1 (disk w)\<rparr>))
      | None \<Rightarrow> (Json_success, w))"

text \<open>\<open>app.patch('/api/notifications/:user/read-all')\<close>\<close>

definition patch_read_all :: "string \<Rightarrow> world \<Rightarrow> response \<times> world" where
  "patch_read_all user w =
     (let db0 = mem w;
          db1 = db0\<lparr>notifications :=
                      map (\<lambda>n. if n_user n = user then n\<lparr>n_read := True\<rparr> else n)
                          (notifications db0)\<rparr>
      in (Json_success, w\<lparr>mem := db1, disk := saveDB db1 (disk w)\<rparr>))"

section \<open>Runs of the server\<close>

text \<open>
  A run starts the process on a disk without \<open>data.json\<close> and then serves mutating
  requests one at a time; \<open>Restart\<close> ends the process and starts it again on the
  file the last one left. The log pairs each request with its response. A run has
  no result (\<open>None\<close>) when a start has none.
\<close>

datatype request =
    Post_discussions discussion_body "nat \<Rightarrow> timestamp"
  | Post_replies "int option" reply_body "nat \<Rightarrow> timestamp"
  | Patch_resolve "int option" resolve_body "nat \<Rightarrow> timestamp"
  | Delete_discussion "int option"
  | Put_section "int option" section_body "nat \<Rightarrow> timestamp"
  | Patch_read "int option"
  | Patch_read_all string

datatype event = Request request | Restart

fun handle :: "request \<Rightarrow> world \<Rightarrow> response \<times> world" where
  "handle (Post_discussions body clock) w = post_discussions body clock w"
| "handle (Post_replies pid body clock) w = post_replies pid body clock w"
| "handle (Patch_resolve pid body clock) w = patch_resolve pid body clock w"
| "handle (Delete_discussion pid) w = delete_discussion pid w"
| "handle (Put_section pid body clock) w = put_section pid body clock w"
| "handle (Patch_read pid) w = patch_read pid w"
| "handle (Patch_read_all user) w = patch_read_all user w"

fun run ::
  "plan_section list \<Rightarrow> event list \<Rightarrow> world \<Rightarrow> ((request \<times> response) list \<times> world) option"
where
  "run seed [] w = Some ([], w)"
| "run seed (Restart # es) w =
     (case startup seed (disk w) of
        None \<Rightarrow> None
      | Some w' \<Rightarrow> run seed es w')"
| "run seed (Request r # es) w =
     (case handle r w of
        (resp, w') \<Rightarrow>
          (case run seed es w' of
             None \<Rightarrow> None
           | Some (log, w'') \<Rightarrow> Some ((r, resp) # log, w'')))"

definition serve ::
  "plan_section list \<Rightarrow> event list \<Rightarrow> ((request \<times> response) list \<times> world) option" where
  "serve seed es =
     (case startup seed None of
        None \<Rightarrow> None
      | Some w \<Rightarrow> run seed es w)"

text \<open>The ids that the discussion creations of a log returned, in order.\<close>

fun created_ids :: "(request \<times> response) list \<Rightarrow> int list" where
  "created_ids [] = []"
| "created_ids ((Post_discussions body clock, Json_id i) # log) = i # created_ids log"
| "created_ids (_ # log) = created_ids log"

text \<open>The invariant of the data model on the resolution fields of a discussion.\<close>

definition resolution_ok :: "discussion \<Rightarrow> bool" where
  "resolution_ok d = (\<not> d_resolved d \<longrightarrow> d_resolved_by d = None \<and> d_resolved_at d = None)"

text \<open>
  What a run keeps true of the process state: the file holds the text of the
  object in memory, and every discussion satisfies the invariant on its resolution
  fields.
\<close>

definition store_ok :: "world \<Rightarrow> bool" where
  "store_ok w =
     (disk w = Some (JSON_stringify (db_json (mem w)))
      \<and> (\<forall>d \<in> set (discussions (mem w)). resolution_ok d))"

text \<open>The discussion counter \<open>db.nextId.discussion\<close> of the process.\<close>

abbreviation counter :: "world \<Rightarrow> int" where
  "counter w \<equiv> nx_discussion (nextId (mem w))"

section \<open>Example states\<close>

text \<open>
  A seed of one section, the store right after the first start, and the store after
  Francisco has posted one comment on it.
\<close>

definition seed1 :: "plan_section list" where
  "seed1 = [\<lparr>s_id = 1, s_title = ''Executive Summary'', s_level = 1,
             s_content = ''## 1.1 VISION & MISSION'', s_updated_at = None\<rparr>]"

definition fresh_world :: world where
  "fresh_world = (case initializeDB seed1 None of (data, f) \<Rightarrow> \<lparr>mem = data, disk = f\<rparr>)"

definition comment_by :: "string \<Rightarrow> discussion_body" where
  "comment_by author =
     \<lparr>b_section_id = Some 1, b_type = ''comment'', b_text = ''Looks fine'', b_author = author\<rparr>"

definition noon :: "nat \<Rightarrow> timestamp" where
  "noon k = 1000"

definition one_comment_world :: world where
  "one_comment_world = snd (post_discussions (comment_by ''Francisco'') noon fresh_world)"

text \<open>A second comment by Francisco, posted within the same millisecond as the first.\<close>

definition two_comments_world :: world where
  "two_comments_world = snd (post_discussions (comment_by ''Francisco'') noon one_comment_world)"

text \<open>
  Two runs: a comment that is resolved by Wife and, after a restart, reopened by
  Francisco; and a comment that is deleted before a restart.
\<close>

definition resolve_then_reopen :: "event list" where
  "resolve_then_reopen =
     [Request (Post_discussions (comment_by ''Francisco'') noon),
      Request (Patch_resolve (Some 1) \<lparr>rs_resolved = True, rs_resolved_by = Some ''Wife''\<rparr> noon),
      Restart,
      Request (Patch_resolve (Some 1) \<lparr>rs_resolved = False, rs_resolved_by = Some ''Francisco''\<rparr> noon)]"


text \<open>A small JSON value with every kind of node.\<close>

definition small_json :: json where
  "small_json =
     JObj [(''id'', JNum (- 12)),
           (''text'', JStr [CHR ''a'', CHR 0x22, CHR 0x0A, CHR ''b'']),
           (''tags'', JArr [JNull, JBool True, JArr [], JObj []])]"

section \<open>Parsing what was printed\<close>

declare show_nat.simps [simp del]

lemma of_char_digit_char: "d < 10 \<Longrightarrow> (of_char (digit_char d) :: nat) = 48 + d"
  by (simp add: digit_char_def)

lemma is_digit_digit_char: "d < 10 \<Longrightarrow> is_digit (digit_char d)"
  by (simp add: is_digit_def of_char_digit_char)

lemma digit_val_digit_char: "d < 10 \<Longrightarrow> digit_val (digit_char d) = d"
  by (simp add: digit_val_def of_char_digit_char)

lemma digit_char_zero: "d < 10 \<Longrightarrow> digit_char d = CHR ''0'' \<longleftrightarrow> d = 0"
proof -
  assume small: "d < 10"
  have "digit_char d = CHR ''0'' \<longleftrightarrow> (of_char (digit_char d) :: nat) = of_char CHR ''0''"
    by (simp only: of_char_eq_iff)
  then show ?thesis
    by (simp add: of_char_digit_char [OF small])
qed

lemma digit_char_not_minus: "d < 10 \<Longrightarrow> digit_char d \<noteq> CHR ''-''"
proof -
  assume small: "d < 10"
  have "digit_char d = CHR ''-'' \<longleftrightarrow> (of_char (digit_char d) :: nat) = of_char CHR ''-''"
    by (simp only: of_char_eq_iff)
  then show ?thesis
    by (simp add: of_char_digit_char [OF small])
qed

lemma show_nat_digits: "\<forall>c \<in> set (show_nat n). is_digit c"
  by (induction n rule: show_nat.induct) (subst show_nat.simps, simp add: is_digit_digit_char)

lemma show_nat_not_Nil: "show_nat n \<noteq> []"
  by (subst show_nat.simps) simp

lemma read_nat_snoc: "read_nat (ds @ [c]) = 10 * read_nat ds + digit_val c"
  by (simp add: read_nat_def)

lemma read_show_nat: "read_nat (show_nat n) = n"
proof (induction n rule: show_nat.induct)
  case (1 n)
  show ?case
  proof (cases "n < 10")
    case True
    then show ?thesis
      by (subst show_nat.simps) (simp add: read_nat_def digit_val_digit_char)
  next
    case False
    with 1 show ?thesis
      by (subst show_nat.simps) (simp add: read_nat_snoc digit_val_digit_char)
  qed
qed

lemma hd_show_nat_zero: "hd (show_nat n) = CHR ''0'' \<Longrightarrow> n = 0"
proof (induction n rule: show_nat.induct)
  case (1 n)
  show ?case
  proof (cases "n < 10")
    case True
    with 1(2) show ?thesis
      by (subst (asm) show_nat.simps) (simp add: digit_char_zero)
  next
    case False
    with 1(2) have "hd (show_nat (n div 10)) = CHR ''0''"
      by (subst (asm) show_nat.simps) (simp add: show_nat_not_Nil)
    with 1(1) False have "n div 10 = 0"
      by simp
    with False show ?thesis
      by simp
  qed
qed

lemma show_nat_no_leading_zero: "\<not> (hd (show_nat n) = CHR ''0'' \<and> tl (show_nat n) \<noteq> [])"
proof
  assume a: "hd (show_nat n) = CHR ''0'' \<and> tl (show_nat n) \<noteq> []"
  then have "n = 0"
    using hd_show_nat_zero by blast
  then have "show_nat n = [digit_char 0]"
    by (subst show_nat.simps) simp
  with a show False
    by simp
qed

lemma hd_show_nat_not_minus: "hd (show_nat n) \<noteq> CHR ''-''"
proof -
  have "is_digit (hd (show_nat n))"
    using show_nat_digits [of n] show_nat_not_Nil [of n] hd_in_set [of "show_nat n"] by blast
  then show ?thesis
    by (auto simp: is_digit_def)
qed

lemma takeWhile_digits:
  "\<forall>c \<in> set ds. is_digit c \<Longrightarrow> number_end r \<Longrightarrow> takeWhile is_digit (ds @ r) = ds"
  by (cases r) (simp_all add: number_end_def takeWhile_append)

lemma dropWhile_digits:
  "\<forall>c \<in> set ds. is_digit c \<Longrightarrow> number_end r \<Longrightarrow> dropWhile is_digit (ds @ r) = r"
  by (cases r) (simp_all add: number_end_def dropWhile_append)

lemma number_end_goes_on: "number_end r \<Longrightarrow> \<not> number_goes_on r"
  by (cases r) (simp_all add: number_end_def number_goes_on_def)

lemma parse_digits:
  assumes "number_end r"
  shows "takeWhile is_digit (show_nat n @ r) = show_nat n"
    and "dropWhile is_digit (show_nat n @ r) = r"
  by (rule takeWhile_digits [OF show_nat_digits assms])
     (rule dropWhile_digits [OF show_nat_digits assms])

lemma parse_show_nat:
  assumes "number_end r"
  shows "parse_number (show_nat n @ r) = Parsed (JNum (int n), r)"
proof -
  have first: "(case show_nat n @ r of [] \<Rightarrow> False | c # _ \<Rightarrow> c = CHR ''-'') = False"
    using hd_show_nat_not_minus [of n] show_nat_not_Nil [of n]
    by (cases "show_nat n") simp_all
  have zero: "(hd (show_nat n) = CHR ''0'' \<and> tl (show_nat n) \<noteq> []) = False"
    using show_nat_no_leading_zero [of n] by simp
  show ?thesis
    unfolding parse_number_def first Let_def if_False parse_digits [OF assms] zero
    using assms by (simp add: show_nat_not_Nil read_show_nat number_end_goes_on)
qed

lemma parse_show_neg:
  assumes "number_end r"
  shows "parse_number (CHR ''-'' # show_nat n @ r) = Parsed (JNum (- int n), r)"
proof -
  have first: "(case CHR ''-'' # show_nat n @ r of [] \<Rightarrow> False | c # _ \<Rightarrow> c = CHR ''-'') = True"
    by simp
  have zero: "(hd (show_nat n) = CHR ''0'' \<and> tl (show_nat n) \<noteq> []) = False"
    using show_nat_no_leading_zero [of n] by simp
  show ?thesis
    unfolding parse_number_def first Let_def if_True list.sel parse_digits [OF assms] zero
    using assms by (simp add: show_nat_not_Nil read_show_nat number_end_goes_on)
qed

lemma parse_show_int:
  assumes "number_end r"
  shows "parse_number (show_int i @ r) = Parsed (JNum i, r)"
proof (cases "i < 0")
  case True
  then have "show_int i @ r = CHR ''-'' # show_nat (nat (- i)) @ r"
    by (simp add: show_int_def)
  moreover have "- int (nat (- i)) = i"
    using True by simp
  ultimately show ?thesis
    using parse_show_neg [OF assms, of "nat (- i)"] by simp
next
  case False
  then have "show_int i @ r = show_nat (nat i) @ r"
    by (simp add: show_int_def)
  moreover have "int (nat i) = i"
    using False by simp
  ultimately show ?thesis
    using parse_show_nat [OF assms, of "nat i"] by simp
qed

lemma hex_val_hex_digit: "k < 16 \<Longrightarrow> hex_val (hex_digit k) = Some k"
  by (simp add: hex_digit_def hex_val_def)

lemma hex4_control:
  assumes "n < 32"
  shows "hex4 CHR ''0'' CHR ''0'' (hex_digit (n div 16)) (hex_digit (n mod 16)) = Some n"
proof -
  have "n div 16 < 16" and "n mod 16 < 16"
    using assms by simp_all
  then have "hex_val (hex_digit (n div 16)) = Some (n div 16)"
    and "hex_val (hex_digit (n mod 16)) = Some (n mod 16)"
    by (simp_all add: hex_val_hex_digit)
  moreover have "hex_val CHR ''0'' = Some 0"
    by (simp add: hex_val_def)
  ultimately show ?thesis
    by (simp add: hex4_def)
qed

lemma parse_escape_char: "parse_chars (escape_char c @ t) = prepend c (parse_chars t)"
proof -
  consider (quote) "c = CHR 0x22" | (backslash) "c = CHR 0x5C"
    | (short) "c \<in> {CHR 0x08, CHR 0x0C, CHR 0x0A, CHR 0x0D, CHR 0x09}"
    | (control) "c \<noteq> CHR 0x22" "c \<noteq> CHR 0x5C"
        "c \<notin> {CHR 0x08, CHR 0x0C, CHR 0x0A, CHR 0x0D, CHR 0x09}" "(of_char c :: nat) < 32"
    | (plain) "c \<noteq> CHR 0x22" "c \<noteq> CHR 0x5C" "\<not> (of_char c :: nat) < 32"
    by blast
  then show ?thesis
  proof cases
    case quote
    then show ?thesis by (simp add: escape_char_def unescape_def)
  next
    case backslash
    then show ?thesis by (simp add: escape_char_def unescape_def)
  next
    case short
    then show ?thesis by (auto simp: escape_char_def unescape_def)
  next
    case control
    then show ?thesis
      by (simp add: escape_char_def hex4_control)
  next
    case plain
    then have "escape_char c = [c]"
      by (auto simp: escape_char_def)
    with plain show ?thesis
      by simp
  qed
qed

lemma parse_chars_escaped:
  "parse_chars (concat (map escape_char s) @ CHR 0x22 # rest) = Parsed (s, rest)"
  by (induction s) (simp_all add: parse_escape_char prepend_def)

lemma escape_char_not_Nil: "escape_char c \<noteq> []"
  by (simp add: escape_char_def)

lemma ws_simps: "ws []" "ws (c # w) = (is_ws c \<and> ws w)" "ws (v @ w) = (ws v \<and> ws w)"
  by (auto simp: ws_def)

lemma ws_indent: "ws ind \<Longrightarrow> ws (ind @ ''  '')" "ws ind \<Longrightarrow> ws (CHR 0x0A # ind)"
  by (simp_all add: ws_simps is_ws_def)

lemma dropWhile_ws: "ws w \<Longrightarrow> dropWhile is_ws (w @ s) = dropWhile is_ws s"
  by (induction w) (simp_all add: ws_simps)

lemma starts_value_not_ws: "starts_value c \<Longrightarrow> \<not> is_ws c"
  by (auto simp: starts_value_def is_ws_def is_digit_def)

lemma starts_value_not_close: "starts_value c \<Longrightarrow> c \<noteq> CHR '']'' \<and> c \<noteq> CHR ''}''"
  by (auto simp: starts_value_def is_digit_def)

lemma parse_value_skip: "ws w \<Longrightarrow> parse_value n (w @ s) = parse_value n s"
  by (cases n) (simp_all add: dropWhile_ws)

lemma parse_elements_skip: "ws w \<Longrightarrow> parse_elements n (w @ s) = parse_elements n s"
  by (cases n) (simp_all add: parse_value_skip)

lemma parse_members_skip: "ws w \<Longrightarrow> parse_members n (w @ s) = parse_members n s"
  by (cases n) (simp_all add: dropWhile_ws)

lemma show_int_start: "\<exists>c cs. show_int i = c # cs \<and> (c = CHR ''-'' \<or> is_digit c)"
proof (cases "i < 0")
  case True
  then show ?thesis by (simp add: show_int_def)
next
  case False
  obtain c cs where split: "show_nat (nat i) = c # cs"
    using show_nat_not_Nil [of "nat i"] by (cases "show_nat (nat i)") auto
  then have "is_digit c"
    using show_nat_digits [of "nat i"] by simp
  with False split show ?thesis
    by (simp add: show_int_def)
qed

lemma parse_value_number:
  assumes "number_end r"
  shows "parse_value (Suc n) (show_int i @ r) = Parsed (JNum i, r)"
proof -
  obtain c cs where split: "show_int i = c # cs" and start: "c = CHR ''-'' \<or> is_digit c"
    using show_int_start by blast
  from start have other: "c \<noteq> CHR ''n''" "c \<noteq> CHR ''t''" "c \<noteq> CHR ''f''" "c \<noteq> CHR 0x22"
    "c \<noteq> CHR ''[''" "c \<noteq> CHR ''{''" "\<not> is_ws c"
    by (auto simp: is_digit_def is_ws_def)
  have "parse_value (Suc n) (c # cs @ r) = parse_number (c # cs @ r)"
    using other start by simp
  also have "\<dots> = parse_number (show_int i @ r)"
    by (simp add: split)
  also have "\<dots> = Parsed (JNum i, r)"
    using assms by (rule parse_show_int)
  finally show ?thesis
    by (simp add: split)
qed

lemma parse_value_string: "parse_value (Suc n) (quote s @ r) = Parsed (JStr s, r)"
  by (simp add: quote_def is_ws_def parse_chars_escaped)

lemma parse_value_null: "parse_value (Suc n) (''null'' @ r) = Parsed (JNull, r)"
  by (simp add: is_ws_def keyword_def)

lemma parse_value_bool:
  "parse_value (Suc n) ((if b then ''true'' else ''false'') @ r) = Parsed (JBool b, r)"
  by (simp add: is_ws_def keyword_def)

lemma parse_value_empty_array: "parse_value (Suc n) (''[]'' @ r) = Parsed (JArr [], r)"
  by (simp add: is_ws_def)

lemma parse_value_empty_object: "parse_value (Suc n) (''{}'' @ r) = Parsed (JObj [], r)"
  by (simp add: is_ws_def)

lemma parse_value_array:
  assumes "ws w" and "\<not> is_ws b" and "b \<noteq> CHR '']''"
  shows "parse_value (Suc n) (CHR ''['' # w @ b # body) = array_of (parse_elements n (b # body))"
proof -
  have "dropWhile is_ws (w @ b # body) = b # body"
    using assms by (simp add: dropWhile_ws)
  moreover have "parse_elements n (w @ b # body) = parse_elements n (b # body)"
    using assms(1) by (rule parse_elements_skip)
  ultimately show ?thesis
    using assms(3) by (simp add: is_ws_def)
qed

lemma parse_value_object:
  assumes "ws w" and "\<not> is_ws b" and "b \<noteq> CHR ''}''"
  shows "parse_value (Suc n) (CHR ''{'' # w @ b # body) = object_of (parse_members n (b # body))"
proof -
  have "dropWhile is_ws (w @ b # body) = b # body"
    using assms by (simp add: dropWhile_ws)
  moreover have "parse_members n (w @ b # body) = parse_members n (b # body)"
    using assms(1) by (rule parse_members_skip)
  ultimately show ?thesis
    using assms(3) by (simp add: is_ws_def)
qed

lemma stringify_start: "\<exists>c cs. stringify ind j = c # cs \<and> starts_value c"
proof (cases j)
  case (JNum i)
  then show ?thesis
    using show_int_start [of i] by (auto simp: starts_value_def)
qed (auto simp: starts_value_def quote_def)

lemma stringify_list_start:
  "vs \<noteq> [] \<Longrightarrow> \<exists>b body. stringify_list ind vs = b # body \<and> starts_value b"
proof (cases vs)
  case Nil
  assume "vs \<noteq> []"
  with Nil show ?thesis by simp
next
  case (Cons v vs')
  obtain c cs where "stringify ind v = c # cs" and "starts_value c"
    using stringify_start by blast
  with Cons show ?thesis
    by simp
qed

lemma stringify_props_start:
  "ps \<noteq> [] \<Longrightarrow> \<exists>body. stringify_props ind ps = CHR 0x22 # body"
  by (cases ps) (simp_all add: quote_def)

lemma number_end_after:
  assumes "ws w" and "\<not> is_digit x" and "x \<noteq> CHR ''.''" and "x \<noteq> CHR ''e''" and "x \<noteq> CHR ''E''"
  shows "number_end (w @ x # r)"
proof (cases w)
  case Nil
  with assms show ?thesis
    by (simp add: number_end_def number_goes_on_def)
next
  case (Cons c w')
  with assms(1) have "is_ws c"
    by (simp add: ws_simps)
  then have "\<not> is_digit c" "c \<noteq> CHR ''.''" "c \<noteq> CHR ''e''" "c \<noteq> CHR ''E''"
    by (auto simp: is_ws_def is_digit_def)
  with Cons show ?thesis
    by (simp add: number_end_def number_goes_on_def)
qed

lemma number_end_close:
  "ws w \<Longrightarrow> number_end (w @ CHR '']'' # r)" "ws w \<Longrightarrow> number_end (w @ CHR ''}'' # r)"
  "number_end (CHR '','' # r)"
  using number_end_after [of w "CHR '']''" r] number_end_after [of w "CHR ''}''" r]
    number_end_after [of "[]" "CHR '',''" r]
  by (simp_all add: is_digit_def ws_simps)

lemma parse_elements_last:
  assumes "parse_value n s = Parsed (v, t)" and "dropWhile is_ws t = CHR '']'' # r"
  shows "parse_elements (Suc n) s = Parsed ([v], r)"
  using assms by simp

lemma parse_elements_more:
  assumes "parse_value n s = Parsed (v, t)" and "dropWhile is_ws t = CHR '','' # t'"
    and "parse_elements n t' = Parsed (vs, r)"
  shows "parse_elements (Suc n) s = Parsed (v # vs, r)"
  using assms by simp

lemma parse_members_key:
  "parse_members (Suc n) (quote k @ CHR '':'' # t1) =
     (case parse_value n t1 of
        Parsed (v, r2) \<Rightarrow>
          (case dropWhile is_ws r2 of
             [] \<Rightarrow> Syntax_error
           | d # r3 \<Rightarrow>
               if d = CHR '','' then
                 (case parse_members n r3 of
                    Parsed (ps, r4) \<Rightarrow> Parsed ((k, v) # ps, r4)
                  | Syntax_error \<Rightarrow> Syntax_error
                  | Unmodelled \<Rightarrow> Unmodelled)
               else if d = CHR ''}'' then Parsed ([(k, v)], r3)
               else Syntax_error)
      | Syntax_error \<Rightarrow> Syntax_error
      | Unmodelled \<Rightarrow> Unmodelled)"
  by (simp add: quote_def is_ws_def parse_chars_escaped)

lemma parse_members_last:
  assumes "parse_value n t1 = Parsed (v, t)" and "dropWhile is_ws t = CHR ''}'' # r"
  shows "parse_members (Suc n) (quote k @ CHR '':'' # t1) = Parsed ([(k, v)], r)"
  unfolding parse_members_key using assms by simp

lemma parse_members_more:
  assumes "parse_value n t1 = Parsed (v, t)" and "dropWhile is_ws t = CHR '','' # t'"
    and "parse_members n t' = Parsed (ps, r)"
  shows "parse_members (Suc n) (quote k @ CHR '':'' # t1) = Parsed ((k, v) # ps, r)"
  unfolding parse_members_key using assms by simp

lemma parse_stringify:
  "ws ind \<longrightarrow> wf_json j \<longrightarrow>
     (\<forall>n r. need j \<le> n \<longrightarrow> number_end r \<longrightarrow>
        parse_value n (stringify ind j @ r) = Parsed (j, r))"
  "ws ind \<longrightarrow> vs \<noteq> [] \<longrightarrow> (\<forall>v \<in> set vs. wf_json v) \<longrightarrow>
     (\<forall>n w r. need_list vs \<le> n \<longrightarrow> ws w \<longrightarrow>
        parse_elements n (stringify_list ind vs @ w @ CHR '']'' # r) = Parsed (vs, r))"
  "ws ind \<longrightarrow> ps \<noteq> [] \<longrightarrow> (\<forall>p \<in> set ps. wf_json (snd p)) \<longrightarrow>
     (\<forall>n w r. need_props ps \<le> n \<longrightarrow> ws w \<longrightarrow>
        parse_members n (stringify_props ind ps @ w @ CHR ''}'' # r) = Parsed (ps, r))"
proof (induction ind j and ind vs and ind ps rule: stringify_stringify_list_stringify_props.induct)
  case (1 ind)
  show ?case
  proof (intro impI allI)
    fix n r assume "need JNull \<le> n"
    then obtain m where "n = Suc m" by (cases n) auto
    then show "parse_value n (stringify ind JNull @ r) = Parsed (JNull, r)"
      using parse_value_null [of m r] by simp
  qed
next
  case (2 ind b)
  show ?case
  proof (intro impI allI)
    fix n r assume "need (JBool b) \<le> n"
    then obtain m where "n = Suc m" by (cases n) auto
    then show "parse_value n (stringify ind (JBool b) @ r) = Parsed (JBool b, r)"
      using parse_value_bool [of m b r] by simp
  qed
next
  case (3 ind i)
  show ?case
  proof (intro impI allI)
    fix n r assume "need (JNum i) \<le> n" and "number_end r"
    then obtain m where "n = Suc m" by (cases n) auto
    then show "parse_value n (stringify ind (JNum i) @ r) = Parsed (JNum i, r)"
      using parse_value_number [OF \<open>number_end r\<close>, of m i] by simp
  qed
next
  case (4 ind s)
  show ?case
  proof (intro impI allI)
    fix n r assume "need (JStr s) \<le> n"
    then obtain m where "n = Suc m" by (cases n) auto
    then show "parse_value n (stringify ind (JStr s) @ r) = Parsed (JStr s, r)"
      using parse_value_string [of m s r] by simp
  qed
next
  case (5 ind vs)
  show ?case
  proof (intro impI allI)
    fix n r
    assume ind: "ws ind" and wf: "wf_json (JArr vs)" and fuel: "need (JArr vs) \<le> n"
    from fuel obtain m where n: "n = Suc m" and m: "need_list vs \<le> m"
      by (cases n) auto
    show "parse_value n (stringify ind (JArr vs) @ r) = Parsed (JArr vs, r)"
    proof (cases "vs = []")
      case True
      then show ?thesis
        using parse_value_empty_array [of m r] n by simp
    next
      case False
      let ?ind = "ind @ ''  ''"
      obtain b body where start: "stringify_list ?ind vs = b # body" and b: "starts_value b"
        using stringify_list_start [OF False] by blast
      have shape: "stringify ind (JArr vs) @ r
                    = CHR ''['' # (CHR 0x0A # ?ind) @ b # (body @ (CHR 0x0A # ind) @ CHR '']'' # r)"
        using False start by simp
      have "parse_value (Suc m) (stringify ind (JArr vs) @ r)
              = array_of (parse_elements m (b # (body @ (CHR 0x0A # ind) @ CHR '']'' # r)))"
        unfolding shape
        using ws_indent [OF ind] starts_value_not_ws [OF b] starts_value_not_close [OF b]
        by (intro parse_value_array) (simp_all add: ws_simps is_ws_def)
      also have "b # (body @ (CHR 0x0A # ind) @ CHR '']'' # r)
                   = stringify_list ?ind vs @ (CHR 0x0A # ind) @ CHR '']'' # r"
        using start by simp
      also have "parse_elements m \<dots> = Parsed (vs, r)"
      proof -
        have "ws u \<Longrightarrow> parse_elements m (stringify_list ?ind vs @ u @ CHR '']'' # r)
                = Parsed (vs, r)" for u
          using 5 False ind wf m ws_indent(1) [OF ind] by simp
        then show ?thesis
          using ws_indent(2) [OF ind] by blast
      qed
      finally show ?thesis
        by (simp add: n array_of_def)
    qed
  qed
next
  case (6 ind ps)
  show ?case
  proof (intro impI allI)
    fix n r
    assume ind: "ws ind" and wf: "wf_json (JObj ps)" and fuel: "need (JObj ps) \<le> n"
    from fuel obtain m where n: "n = Suc m" and m: "need_props ps \<le> m"
      by (cases n) auto
    show "parse_value n (stringify ind (JObj ps) @ r) = Parsed (JObj ps, r)"
    proof (cases "ps = []")
      case True
      then show ?thesis
        using parse_value_empty_object [of m r] n by simp
    next
      case False
      let ?ind = "ind @ ''  ''"
      obtain body where start: "stringify_props ?ind ps = CHR 0x22 # body"
        using stringify_props_start [OF False] by blast
      have shape: "stringify ind (JObj ps) @ r
                    = CHR ''{'' # (CHR 0x0A # ?ind) @ CHR 0x22 # (body @ (CHR 0x0A # ind) @ CHR ''}'' # r)"
        using False start by simp
      have "parse_value (Suc m) (stringify ind (JObj ps) @ r)
              = object_of (parse_members m (CHR 0x22 # (body @ (CHR 0x0A # ind) @ CHR ''}'' # r)))"
        unfolding shape
        using ws_indent [OF ind]
        by (intro parse_value_object) (simp_all add: ws_simps is_ws_def)
      also have "CHR 0x22 # (body @ (CHR 0x0A # ind) @ CHR ''}'' # r)
                   = stringify_props ?ind ps @ (CHR 0x0A # ind) @ CHR ''}'' # r"
        using start by simp
      also have "parse_members m \<dots> = Parsed (ps, r)"
      proof -
        have "ws u \<Longrightarrow> parse_members m (stringify_props ?ind ps @ u @ CHR ''}'' # r)
                = Parsed (ps, r)" for u
          using 6 False ind wf m ws_indent(1) [OF ind] by simp
        then show ?thesis
          using ws_indent(2) [OF ind] by blast
      qed
      finally show ?thesis
        using wf by (simp add: n object_of_def)
    qed
  qed
next
  case (7 ind)
  show ?case by simp
next
  case (8 ind v vs)
  show ?case
  proof (intro impI allI)
    fix n w r
    assume ind: "ws ind" and wf: "\<forall>x \<in> set (v # vs). wf_json x"
      and fuel: "need_list (v # vs) \<le> n" and w: "ws w"
    from fuel obtain m where n: "n = Suc m" and mv: "need v \<le> m" and ml: "need_list vs \<le> m"
      by (cases n) auto
    have inner: "number_end t \<Longrightarrow> parse_value m (stringify ind v @ t) = Parsed (v, t)" for t
      using "8.IH"(1) ind wf mv by simp
    show "parse_elements n (stringify_list ind (v # vs) @ w @ CHR '']'' # r) = Parsed (v # vs, r)"
    proof (cases "vs = []")
      case True
      have "parse_elements (Suc m) (stringify ind v @ w @ CHR '']'' # r) = Parsed ([v], r)"
      proof (rule parse_elements_last)
        show "parse_value m (stringify ind v @ w @ CHR '']'' # r) = Parsed (v, w @ CHR '']'' # r)"
          using w by (intro inner number_end_close)
        show "dropWhile is_ws (w @ CHR '']'' # r) = CHR '']'' # r"
          using w by (simp add: dropWhile_ws is_ws_def)
      qed
      with True n show ?thesis
        by simp
    next
      case False
      let ?t = "CHR 0x0A # ind @ stringify_list ind vs @ w @ CHR '']'' # r"
      have "parse_elements (Suc m) (stringify ind v @ CHR '','' # ?t) = Parsed (v # vs, r)"
      proof (rule parse_elements_more)
        show "parse_value m (stringify ind v @ CHR '','' # ?t) = Parsed (v, CHR '','' # ?t)"
          by (intro inner number_end_close)
        show "dropWhile is_ws (CHR '','' # ?t) = CHR '','' # ?t"
          by (simp add: is_ws_def)
        have "parse_elements m ((CHR 0x0A # ind) @ stringify_list ind vs @ w @ CHR '']'' # r)
                = parse_elements m (stringify_list ind vs @ w @ CHR '']'' # r)"
          using ws_indent(2) [OF ind] by (rule parse_elements_skip)
        also have "\<dots> = Parsed (vs, r)"
          using "8.IH"(2) False ind wf ml w by simp
        finally show "parse_elements m ?t = Parsed (vs, r)"
          by simp
      qed
      with False n show ?thesis
        by simp
    qed
  qed
next
  case (9 ind)
  show ?case by simp
next
  case (10 ind p ps)
  show ?case
  proof (intro impI allI)
    fix n w r
    assume ind: "ws ind" and wf: "\<forall>x \<in> set (p # ps). wf_json (snd x)"
      and fuel: "need_props (p # ps) \<le> n" and w: "ws w"
    from fuel obtain m where n: "n = Suc m" and mv: "need (snd p) \<le> m"
      and ml: "need_props ps \<le> m"
      by (cases n) auto
    have inner: "number_end t \<Longrightarrow>
        parse_value m (CHR '' '' # stringify ind (snd p) @ t) = Parsed (snd p, t)" for t
    proof -
      assume t: "number_end t"
      have "parse_value m ([CHR '' ''] @ stringify ind (snd p) @ t)
              = parse_value m (stringify ind (snd p) @ t)"
        by (rule parse_value_skip) (simp add: ws_simps is_ws_def)
      also have "\<dots> = Parsed (snd p, t)"
        using "10.IH"(1) ind wf mv t by simp
      finally show ?thesis
        by simp
    qed
    show "parse_members n (stringify_props ind (p # ps) @ w @ CHR ''}'' # r) = Parsed (p # ps, r)"
    proof (cases "ps = []")
      case True
      have "parse_members (Suc m)
              (quote (fst p) @ CHR '':'' # CHR '' '' # stringify ind (snd p) @ w @ CHR ''}'' # r)
            = Parsed ([(fst p, snd p)], r)"
      proof (rule parse_members_last)
        show "parse_value m (CHR '' '' # stringify ind (snd p) @ w @ CHR ''}'' # r)
                = Parsed (snd p, w @ CHR ''}'' # r)"
          using w by (intro inner number_end_close)
        show "dropWhile is_ws (w @ CHR ''}'' # r) = CHR ''}'' # r"
          using w by (simp add: dropWhile_ws is_ws_def)
      qed
      with True n show ?thesis
        by simp
    next
      case False
      let ?t = "CHR 0x0A # ind @ stringify_props ind ps @ w @ CHR ''}'' # r"
      have "parse_members (Suc m)
              (quote (fst p) @ CHR '':'' # CHR '' '' # stringify ind (snd p) @ CHR '','' # ?t)
            = Parsed ((fst p, snd p) # ps, r)"
      proof (rule parse_members_more)
        show "parse_value m (CHR '' '' # stringify ind (snd p) @ CHR '','' # ?t)
                = Parsed (snd p, CHR '','' # ?t)"
          by (intro inner number_end_close)
        show "dropWhile is_ws (CHR '','' # ?t) = CHR '','' # ?t"
          by (simp add: is_ws_def)
        have "parse_members m ((CHR 0x0A # ind) @ stringify_props ind ps @ w @ CHR ''}'' # r)
                = parse_members m (stringify_props ind ps @ w @ CHR ''}'' # r)"
          using ws_indent(2) [OF ind] by (rule parse_members_skip)
        also have "\<dots> = Parsed (ps, r)"
          using "10.IH"(2) False ind wf ml w by simp
        finally show "parse_members m ?t = Parsed (ps, r)"
          by simp
      qed
      with False n show ?thesis
        by simp
    qed
  qed
qed

lemma stringify_not_Nil: "stringify ind j \<noteq> []"
  using stringify_start [of ind j] by auto

lemma need_le_length:
  "need j \<le> length (stringify ind j)"
  "need_list vs \<le> Suc (length (stringify_list ind vs))"
  "need_props ps \<le> Suc (length (stringify_props ind ps))"
proof (induction ind j and ind vs and ind ps rule: stringify_stringify_list_stringify_props.induct)
  case (3 ind i)
  have "show_int i \<noteq> []"
    using stringify_not_Nil [of ind "JNum i"] by simp
  then show ?case
    by (cases "show_int i") simp_all
next
  case (4 ind s)
  show ?case by (simp add: quote_def)
next
  case (5 ind vs)
  then show ?case by (cases "vs = []") simp_all
next
  case (6 ind ps)
  then show ?case by (cases "ps = []") simp_all
next
  case (8 ind v vs)
  then show ?case by (cases "vs = []") auto
next
  case (10 ind p ps)
  then show ?case by (cases "ps = []") auto
qed simp_all

declare parse_value.simps [simp del] parse_elements.simps [simp del]
  parse_members.simps [simp del]

lemma JSON_parse_stringify: "wf_json j \<Longrightarrow> JSON_parse (JSON_stringify j) = Parsed j"
proof -
  assume wf: "wf_json j"
  have fuel: "need j \<le> Suc (length (stringify [] j))"
    using need_le_length(1) [of j "[]"] by simp
  have "ws []" and "number_end []"
    by (simp_all add: ws_simps number_end_def)
  with parse_stringify(1) [of "[]" j] wf fuel
  have "parse_value (Suc (length (stringify [] j))) (stringify [] j @ []) = Parsed (j, [])"
    by blast
  then show ?thesis
    by (simp add: JSON_parse_def JSON_stringify_def)
qed


lemma those_map_read:
  "(\<And>x. f (g x) = Some x) \<Longrightarrow> those (map (f \<circ> g) xs) = Some xs"
  by (induction xs) simp_all

lemma plain_keys:
  "plain_key ''id''" "plain_key ''title''" "plain_key ''level''" "plain_key ''content''"
  "plain_key ''updated_at''" "plain_key ''text''" "plain_key ''author''"
  "plain_key ''created_at''" "plain_key ''section_id''" "plain_key ''type''"
  "plain_key ''resolved''" "plain_key ''resolved_by''" "plain_key ''resolved_at''"
  "plain_key ''replies''" "plain_key ''user''" "plain_key ''message''"
  "plain_key ''discussion_id''" "plain_key ''read''" "plain_key ''sections''"
  "plain_key ''discussions''" "plain_key ''notifications''" "plain_key ''nextId''"
  "plain_key ''discussion''" "plain_key ''reply''" "plain_key ''notification''"
  by (simp_all add: plain_key_def is_digit_def)

lemma wf_nullable: "(\<And>a. wf_json (f a)) \<Longrightarrow> wf_json (nullable f x)"
  by (cases x) (simp_all add: nullable_def)

lemma wf_section_json: "wf_json (section_json s)"
  by (cases "s_updated_at s") (simp_all add: section_json_def plain_keys)

lemma wf_reply_json: "wf_json (reply_json r)"
  by (simp add: reply_json_def plain_keys)

lemma wf_discussion_json: "wf_json (discussion_json d)"
  by (simp add: discussion_json_def plain_keys wf_nullable wf_reply_json)

lemma wf_notification_json: "wf_json (notification_json n)"
  by (simp add: notification_json_def plain_keys)

lemma wf_db_json: "wf_json (db_json data)"
  by (simp add: db_json_def plain_keys wf_section_json wf_discussion_json wf_notification_json)

lemma as_nullable_nullable:
  "as_nullable as_int (nullable JNum x) = Some x"
  "as_nullable as_string (nullable JStr y) = Some y"
  by (cases x; simp add: as_nullable_def nullable_def as_int_def)
     (cases y; simp add: as_nullable_def nullable_def as_string_def)

lemma read_section_json: "read_section (section_json s) = Some s"
  by (cases "s_updated_at s")
     (simp_all add: read_section_def section_json_def property_def optional_property_def
        as_int_def as_string_def)

lemma read_reply_json: "read_reply (reply_json r) = Some r"
  by (simp add: read_reply_def reply_json_def property_def as_int_def as_string_def)

lemma read_discussion_json: "read_discussion (discussion_json d) = Some d"
  by (simp add: read_discussion_def discussion_json_def property_def as_int_def as_string_def
        as_bool_def as_list_def as_nullable_nullable those_map_read read_reply_json)

lemma read_notification_json: "read_notification (notification_json n) = Some n"
  by (simp add: read_notification_def notification_json_def property_def as_int_def
        as_string_def as_bool_def)

lemma read_db_json: "read_db (db_json data) = Some data"
  by (simp add: read_db_def db_json_def property_def as_list_def those_map_read
        read_section_json read_discussion_json read_notification_json
        read_next_id_def as_int_def)

lemma json_db_json: "json_db (db_json data) = Some data"
  by (simp add: json_db_def read_db_json)

lemma loadDB_saveDB: "loadDB seed (saveDB data f) = Some (data, saveDB data f)"
  by (simp add: loadDB_def saveDB_def JSON_parse_stringify wf_db_json json_db_json)

lemma startup_saveDB: "startup seed (saveDB data f) = Some \<lparr>mem = data, disk = saveDB data f\<rparr>"
  by (simp add: startup_def loadDB_saveDB)

section \<open>Counting with doubles\<close>


lemma increment_small [simp]: "increment 1 = 2" "increment 2 = 3"
  by (simp_all add: increment_def)

lemma increment_ge: "n \<le> increment n"
  by (simp add: increment_def)

text \<open>At \<open>2^53\<close> a counter stops: one more than \<open>2^53\<close> is not a double.\<close>

lemma increment_stalls: "increment (2 ^ 53) = 2 ^ 53"
  by (simp add: increment_def)

section \<open>The example states, evaluated\<close>

lemma fresh_world_eq:
  "fresh_world =
     \<lparr>mem = \<lparr>sections = seed1, discussions = [], notifications = [],
              nextId = \<lparr>nx_discussion = 1, nx_reply = 1, nx_notification = 1\<rparr>\<rparr>,
      disk = saveDB \<lparr>sections = seed1, discussions = [], notifications = [],
                     nextId = \<lparr>nx_discussion = 1, nx_reply = 1, nx_notification = 1\<rparr>\<rparr>
               None\<rparr>"
  by (simp add: fresh_world_def initializeDB_def Let_def)

lemma startup_None:
  "startup seed None =
     Some \<lparr>mem = \<lparr>sections = seed, discussions = [], notifications = [],
                   nextId = \<lparr>nx_discussion = 1, nx_reply = 1, nx_notification = 1\<rparr>\<rparr>,
           disk = saveDB \<lparr>sections = seed, discussions = [], notifications = [],
                          nextId = \<lparr>nx_discussion = 1, nx_reply = 1, nx_notification = 1\<rparr>\<rparr>
                    None\<rparr>"
  by (simp add: startup_def loadDB_def initializeDB_def Let_def)

lemma one_comment_world_mem:
  "mem one_comment_world =
     \<lparr>sections = seed1,
      discussions =
        [\<lparr>d_id = 1, d_section_id = Some 1, d_type = ''comment'', d_text = ''Looks fine'',
          d_author = ''Francisco'', d_resolved = False, d_resolved_by = None,
          d_resolved_at = None, d_created_at = 1000, d_replies = []\<rparr>],
      notifications =
        [\<lparr>n_id = 1, n_user = ''Wife'', n_type = ''comment'',
          n_message = ''Francisco added a comment'', n_discussion_id = 1, n_read = False,
          n_created_at = 1000\<rparr>],
      nextId = \<lparr>nx_discussion = 2, nx_reply = 1, nx_notification = 2\<rparr>\<rparr>"
  by (simp add: one_comment_world_def post_discussions_def Let_def fresh_world_eq
        comment_by_def noon_def)

lemma two_comments_world_notifications:
  "notifications (mem two_comments_world) =
     [\<lparr>n_id = 1, n_user = ''Wife'', n_type = ''comment'',
       n_message = ''Francisco added a comment'', n_discussion_id = 1, n_read = False,
       n_created_at = 1000\<rparr>,
      \<lparr>n_id = 2, n_user = ''Wife'', n_type = ''comment'',
       n_message = ''Francisco added a comment'', n_discussion_id = 2, n_read = False,
       n_created_at = 1000\<rparr>]"
  by (simp add: two_comments_world_def post_discussions_def Let_def one_comment_world_mem
        comment_by_def noon_def)

section \<open>Resolving a discussion that does not exist\<close>


text \<open>
  Claim C1, as stated: resolving an id that no discussion has fails with NotFound.
  On the fresh store, which has no discussion, the handler is asked to resolve id 7:
  it answers \<open>{success: true}\<close>, not a 404.
\<close>

theorem patch_resolve_missing_counterexample:
  "find (has_id (Some 7)) (discussions (mem fresh_world)) = None
   \<and> fst (patch_resolve (Some 7) \<lparr>rs_resolved = True, rs_resolved_by = Some ''Wife''\<rparr>
            noon fresh_world) = Json_success"
  by (simp add: patch_resolve_def fresh_world_eq)

text \<open>
  Claim C1, amended: resolving an id that no discussion has answers success, and
  neither the store in memory nor the file changes.
\<close>

theorem patch_resolve_missing_noop:
  "find (has_id pid) (discussions (mem w)) = None \<Longrightarrow>
     patch_resolve pid body clock w = (Json_success, w)"
  by (simp add: patch_resolve_def)

theorem patch_resolve_missing_noop_witness:
  "find (has_id (Some 7)) (discussions (mem fresh_world)) = None
   \<and> patch_resolve (Some 7) \<lparr>rs_resolved = True, rs_resolved_by = Some ''Wife''\<rparr>
        noon fresh_world = (Json_success, fresh_world)"
proof -
  have none: "find (has_id (Some 7)) (discussions (mem fresh_world)) = None"
    by (simp add: fresh_world_eq)
  from patch_resolve_missing_noop [OF none] none show ?thesis
    by simp
qed

section \<open>Creating a discussion\<close>



section \<open>Notifications of a creation and of a reply\<close>



section \<open>Replying to a discussion that does not exist\<close>

text \<open>
  Claim C5. A reply to an id that no discussion has is answered with 404
  \<open>Discussion not found\<close>; the notifications, the rest of the store and the file are
  exactly as before.
\<close>

theorem post_replies_missing_not_found:
  "find (has_id pid) (discussions (mem w)) = None \<Longrightarrow>
     post_replies pid body clock w = (Status404 ''Discussion not found'', w)"
  by (simp add: post_replies_def)

theorem post_replies_missing_not_found_witness:
  "find (has_id (Some 2)) (discussions (mem one_comment_world)) = None
   \<and> post_replies (Some 2) \<lparr>rb_text = ''Agreed'', rb_author = ''Wife''\<rparr> noon one_comment_world
       = (Status404 ''Discussion not found'', one_comment_world)"
proof -
  have none: "find (has_id (Some 2)) (discussions (mem one_comment_world)) = None"
    by (simp add: one_comment_world_mem has_id_def)
  from post_replies_missing_not_found [OF none] none show ?thesis
    by simp
qed

section \<open>An author who is not a known user\<close>



section \<open>Listing the notifications of a user\<close>

lemma insert_by_newest_first:
  "insert_by newest_first x ys = insort_key (\<lambda>n. - n_created_at n) x ys"
  by (induction ys) (simp_all add: newest_first_def)

lemma Array_sort_newest_first:
  "Array_sort newest_first xs = sort_key (\<lambda>n. - n_created_at n) xs"
proof -
  have "insert_by newest_first = insort_key (\<lambda>n. - n_created_at n)"
    by (intro ext) (rule insert_by_newest_first)
  then show ?thesis
    by (simp add: Array_sort_def sort_key_def)
qed

lemma sorted_newest_first:
  "sorted_wrt (\<lambda>a b. n_created_at b \<le> n_created_at a) (Array_sort newest_first xs)"
proof -
  have "sorted (map (\<lambda>n. - n_created_at n) (sort_key (\<lambda>n. - n_created_at n) xs))"
    by (rule sorted_sort_key)
  then show ?thesis
    by (simp add: Array_sort_newest_first sorted_map)
qed

lemma stable_newest_first:
  "filter (\<lambda>n. n_created_at n = t) (Array_sort newest_first xs)
     = filter (\<lambda>n. n_created_at n = t) xs"
  using sort_key_stable [of "\<lambda>n. - n_created_at n" "- t" xs]
  by (simp add: Array_sort_newest_first)

text \<open>
  Claim C3, as stated: among notifications of equal \<open>created_at\<close> the one inserted
  later comes first. In the store below Wife has two notifications of the same
  millisecond, inserted with ids 1 and 2 in that order; the listing returns them in
  that order, the earlier one first.
\<close>

theorem list_for_user_ties_counterexample:
  "map n_id (notifications (mem two_comments_world)) = [1, 2]
   \<and> map n_user (notifications (mem two_comments_world)) = [''Wife'', ''Wife'']
   \<and> map n_created_at (notifications (mem two_comments_world)) = [1000, 1000]
   \<and> map n_id (list_for_user ''Wife'' two_comments_world) = [1, 2]"
  by (simp add: list_for_user_def two_comments_world_notifications Array_sort_def
        newest_first_def)

text \<open>
  Claim C3, amended: for every user and every store, the listing returns at most 50
  notifications, each one a stored notification of that user, sorted by
  \<open>created_at\<close> descending; notifications of equal \<open>created_at\<close> keep their insertion
  order, the earlier-inserted first (for each time stamp, the returned notifications
  of that time are an initial part of the user's stored ones of that time).
\<close>

theorem list_for_user_newest_first_stable:
  "length (list_for_user user w) \<le> 50
   \<and> (\<forall>n \<in> set (list_for_user user w). n_user n = user \<and> n \<in> set (notifications (mem w)))
   \<and> sorted_wrt (\<lambda>a b. n_created_at b \<le> n_created_at a) (list_for_user user w)
   \<and> (\<forall>t. prefix (filter (\<lambda>n. n_created_at n = t) (list_for_user user w))
                   (filter (\<lambda>n. n_created_at n = t)
                      (filter (\<lambda>n. n_user n = user) (notifications (mem w)))))"
proof (intro conjI ballI allI)
  show "length (list_for_user user w) \<le> 50"
    by (simp add: list_for_user_def)
next
  fix n assume "n \<in> set (list_for_user user w)"
  then have "n \<in> set (Array_sort newest_first
                        (filter (\<lambda>n. n_user n = user) (notifications (mem w))))"
    unfolding list_for_user_def by (rule in_set_takeD)
  then show "n_user n = user" "n \<in> set (notifications (mem w))"
    by (simp_all add: Array_sort_newest_first)
next
  show "sorted_wrt (\<lambda>a b. n_created_at b \<le> n_created_at a) (list_for_user user w)"
    unfolding list_for_user_def by (rule sorted_wrt_take) (rule sorted_newest_first)
next
  fix t
  have "prefix (filter (\<lambda>n. n_created_at n = t) (list_for_user user w))
          (filter (\<lambda>n. n_created_at n = t)
             (Array_sort newest_first (filter (\<lambda>n. n_user n = user) (notifications (mem w)))))"
    unfolding list_for_user_def by (rule filter_mono_prefix) (rule take_is_prefix)
  then show "prefix (filter (\<lambda>n. n_created_at n = t) (list_for_user user w))
               (filter (\<lambda>n. n_created_at n = t)
                  (filter (\<lambda>n. n_user n = user) (notifications (mem w))))"
    by (simp only: stable_newest_first)
qed

theorem list_for_user_newest_first_stable_witness:
  "length (list_for_user ''Wife'' two_comments_world) = 2
   \<and> hd (list_for_user ''Wife'' two_comments_world) \<in> set (list_for_user ''Wife'' two_comments_world)
   \<and> n_user (hd (list_for_user ''Wife'' two_comments_world)) = ''Wife''
   \<and> hd (list_for_user ''Wife'' two_comments_world) \<in> set (notifications (mem two_comments_world))
   \<and> sorted_wrt (\<lambda>a b. n_created_at b \<le> n_created_at a)
        (list_for_user ''Wife'' two_comments_world)
   \<and> prefix (filter (\<lambda>n. n_created_at n = 1000) (list_for_user ''Wife'' two_comments_world))
        (filter (\<lambda>n. n_created_at n = 1000)
           (filter (\<lambda>n. n_user n = ''Wife'') (notifications (mem two_comments_world))))"
proof -
  have len: "length (list_for_user ''Wife'' two_comments_world) = 2"
    by (simp add: list_for_user_def two_comments_world_notifications Array_sort_def
          newest_first_def)
  then have "list_for_user ''Wife'' two_comments_world \<noteq> []"
    by auto
  then have mem: "hd (list_for_user ''Wife'' two_comments_world)
                    \<in> set (list_for_user ''Wife'' two_comments_world)"
    by simp
  from list_for_user_newest_first_stable [of "''Wife''" two_comments_world] len mem
  show ?thesis
    by blast
qed

section \<open>The invariant on the resolution fields\<close>

lemma set_update_first:
  "x \<in> set (update_first P f xs) \<Longrightarrow> x \<in> set xs \<or> (\<exists>y \<in> set xs. P y \<and> x = f y)"
  by (induction xs) (auto split: if_splits)

lemma find_update_first:
  "(\<And>x. P x \<Longrightarrow> P (f x)) \<Longrightarrow> find P (update_first P f xs) = map_option f (find P xs)"
  by (induction xs) auto

lemma notify_reply_keeps:
  "discussions (notify_reply author did clock k users d) = discussions d"
  "sections (notify_reply author did clock k users d) = sections d"
  "nx_discussion (nextId (notify_reply author did clock k users d)) = nx_discussion (nextId d)"
  "nx_reply (nextId (notify_reply author did clock k users d)) = nx_reply (nextId d)"
  by (induction users arbitrary: k d) simp_all

lemma handle_disk:
  "disk w = Some (JSON_stringify (db_json (mem w))) \<Longrightarrow>
     disk (snd (handle r w)) = Some (JSON_stringify (db_json (mem (snd (handle r w)))))"
  by (cases r)
     (simp_all add: post_discussions_def post_replies_def patch_resolve_def
        delete_discussion_def put_section_def patch_read_def patch_read_all_def Let_def
        saveDB_def split: option.splits)
lemma handle_resolution:
  assumes "\<forall>d \<in> set (discussions (mem w)). resolution_ok d"
  shows "\<forall>d \<in> set (discussions (mem (snd (handle r w)))). resolution_ok d"
proof (cases r)
  case (Post_discussions body clock)
  with assms show ?thesis
    by (auto simp: post_discussions_def Let_def resolution_ok_def)
next
  case (Post_replies pid body clock)
  with assms show ?thesis
    by (auto simp: post_replies_def Let_def notify_reply_keeps resolution_ok_def
          split: option.splits dest!: set_update_first)
next
  case (Patch_resolve pid body clock)
  with assms show ?thesis
    by (auto simp: patch_resolve_def Let_def resolution_ok_def
          split: option.splits dest!: set_update_first)
next
  case (Delete_discussion pid)
  with assms show ?thesis
    by (auto simp: delete_discussion_def Let_def)
next
  case (Put_section pid body clock)
  with assms show ?thesis
    by (auto simp: put_section_def Let_def split: option.splits)
next
  case (Patch_read pid)
  with assms show ?thesis
    by (auto simp: patch_read_def Let_def split: option.splits)
next
  case (Patch_read_all user)
  with assms show ?thesis
    by (auto simp: patch_read_all_def Let_def)
qed

lemma startup_disk:
  assumes "disk w = Some (JSON_stringify (db_json (mem w)))"
  shows "startup seed (disk w) = Some w"
proof -
  have "disk w = saveDB (mem w) None"
    using assms by (simp add: saveDB_def)
  then have "startup seed (disk w) = Some \<lparr>mem = mem w, disk = disk w\<rparr>"
    by (simp add: startup_saveDB)
  then show ?thesis
    by simp
qed

lemma store_ok_handle: "store_ok w \<Longrightarrow> store_ok (snd (handle r w))"
  unfolding store_ok_def using handle_disk handle_resolution by blast

lemma store_ok_startup: "\<exists>w. startup seed None = Some w \<and> store_ok w"
  by (simp add: startup_None store_ok_def saveDB_def)

lemma handle_counter: "counter w \<le> counter (snd (handle r w))"
  by (cases r)
     (simp_all add: post_discussions_def post_replies_def patch_resolve_def
        delete_discussion_def put_section_def patch_read_def patch_read_all_def Let_def
        notify_reply_keeps increment_ge split: option.splits)

lemma length_update_first: "length (update_first P f xs) = length xs"
  by (induction xs) simp_all

lemma notify_reply_length:
  "length (notifications (notify_reply author did clock k users d))
     = length (notifications d) + length users"
  by (induction users arbitrary: k d) simp_all

text \<open>
  A request either creates no discussion and leaves the counter, or creates one with
  the old counter as its id, increments the counter and adds one notification. No
  request removes a notification.
\<close>

lemma handle_created:
  "created_ids [(r, fst (handle r w))] = [] \<and> counter (snd (handle r w)) = counter w
     \<and> length (notifications (mem w)) \<le> length (notifications (mem (snd (handle r w))))
   \<or> created_ids [(r, fst (handle r w))] = [counter w]
     \<and> counter (snd (handle r w)) = increment (counter w)
     \<and> length (notifications (mem (snd (handle r w)))) = Suc (length (notifications (mem w)))"
  by (cases r)
     (simp_all add: post_discussions_def post_replies_def patch_resolve_def
        delete_discussion_def put_section_def patch_read_def patch_read_all_def Let_def
        notify_reply_keeps notify_reply_length length_update_first split: option.splits)

lemma handle_notifications:
  "length (notifications (mem w)) \<le> length (notifications (mem (snd (handle r w))))"
  using handle_created [of r w] by auto


text \<open>
  A run from a state whose file holds the store never lacks a result and keeps the
  file and the invariant; the counter and the number of notifications do not go
  down.
\<close>

lemma run_store_ok:
  assumes "store_ok w"
  shows "\<exists>log w'. run seed es w = Some (log, w') \<and> store_ok w'
           \<and> counter w \<le> counter w'
           \<and> length (notifications (mem w)) \<le> length (notifications (mem w'))"
  using assms
proof (induction es arbitrary: w)
  case Nil
  then show ?case by simp
next
  case (Cons e es)
  show ?case
  proof (cases e)
    case Restart
    have "startup seed (disk w) = Some w"
      using Cons.prems by (intro startup_disk) (simp add: store_ok_def)
    then show ?thesis
      using Restart Cons.IH [OF Cons.prems] by simp
  next
    case (Request r)
    let ?w1 = "snd (handle r w)"
    have "store_ok ?w1"
      using Cons.prems by (rule store_ok_handle)
    from Cons.IH [OF this] obtain log w' where
      rest: "run seed es ?w1 = Some (log, w')" and ok: "store_ok w'"
      and grows: "counter ?w1 \<le> counter w'"
      and more: "length (notifications (mem ?w1)) \<le> length (notifications (mem w'))"
      by blast
    have run_eq: "run seed (e # es) w = Some ((r, fst (handle r w)) # log, w')"
      using Request rest by (simp add: split_def)
    have "counter w \<le> counter w'"
      using handle_counter [of w r] grows by simp
    moreover have "length (notifications (mem w)) \<le> length (notifications (mem w'))"
      using handle_notifications [of w r] more by simp
    ultimately show ?thesis
      using run_eq ok by blast
  qed
qed


lemma serve_store_ok: "\<exists>log w. serve seed es = Some (log, w) \<and> store_ok w"
proof -
  obtain w0 where start: "startup seed None = Some w0" and ok: "store_ok w0"
    using store_ok_startup by blast
  from run_store_ok [OF ok, of seed es] obtain log w where
    "run seed es w0 = Some (log, w)" "store_ok w"
    by blast
  with start show ?thesis
    by (auto simp: serve_def)
qed


text \<open>
  Claim C6. Every run of the server from its first start (creations, replies,
  resolutions, deletions, and also section edits, read marks and restarts from the
  file) has a result, and in the state it reaches every discussion that is not
  resolved has neither \<open>resolved_by\<close> nor \<open>resolved_at\<close>. And in any store,
  resolving an existing discussion as \<open>x\<close> and then reopening it as \<open>y\<close> leaves it
  as it was but unresolved, with both fields \<open>null\<close>, whatever \<open>x\<close> and \<open>y\<close> are.
\<close>

theorem unresolved_has_no_attribution:
  "(\<exists>log w. serve seed es = Some (log, w)
       \<and> (\<forall>d \<in> set (discussions (mem w)).
             \<not> d_resolved d \<longrightarrow> d_resolved_by d = None \<and> d_resolved_at d = None))
   \<and> (find (has_id pid) (discussions (mem w0)) = Some d0 \<longrightarrow>
        find (has_id pid)
          (discussions (mem (snd
             (patch_resolve pid \<lparr>rs_resolved = False, rs_resolved_by = y\<rparr> clock2
                (snd (patch_resolve pid \<lparr>rs_resolved = True, rs_resolved_by = x\<rparr> clock1 w0))))))
        = Some (d0\<lparr>d_resolved := False, d_resolved_by := None, d_resolved_at := None\<rparr>))"
proof (intro conjI impI)
  from serve_store_ok [of seed es] obtain log w where
    "serve seed es = Some (log, w)" and "store_ok w"
    by blast
  then show "\<exists>log w. serve seed es = Some (log, w)
       \<and> (\<forall>d \<in> set (discussions (mem w)).
             \<not> d_resolved d \<longrightarrow> d_resolved_by d = None \<and> d_resolved_at d = None)"
    by (auto simp: store_ok_def resolution_ok_def)
next
  assume found: "find (has_id pid) (discussions (mem w0)) = Some d0"
  have keep: "\<And>f. (\<And>d. d_id (f d) = d_id d) \<Longrightarrow>
      find (has_id pid) (update_first (has_id pid) f xs) = map_option f (find (has_id pid) xs)"
    for xs
    by (rule find_update_first) (simp add: has_id_def)
  show "find (has_id pid)
          (discussions (mem (snd
             (patch_resolve pid \<lparr>rs_resolved = False, rs_resolved_by = y\<rparr> clock2
                (snd (patch_resolve pid \<lparr>rs_resolved = True, rs_resolved_by = x\<rparr> clock1 w0))))))
        = Some (d0\<lparr>d_resolved := False, d_resolved_by := None, d_resolved_at := None\<rparr>)"
    using found by (simp add: patch_resolve_def Let_def keep)
qed

lemma resolve_then_reopen_result:
  "map_option (\<lambda>(log, w). discussions (mem w)) (serve seed1 resolve_then_reopen) =
     Some [\<lparr>d_id = 1, d_section_id = Some 1, d_type = ''comment'', d_text = ''Looks fine'',
            d_author = ''Francisco'', d_resolved = False, d_resolved_by = None,
            d_resolved_at = None, d_created_at = 1000, d_replies = []\<rparr>]"
  by (simp add: serve_def resolve_then_reopen_def startup_None startup_saveDB
        post_discussions_def patch_resolve_def Let_def comment_by_def noon_def
        has_id_def split_def)

theorem unresolved_has_no_attribution_witness:
  "(\<exists>log w. serve seed1 resolve_then_reopen = Some (log, w)
       \<and> hd (discussions (mem w)) \<in> set (discussions (mem w))
       \<and> \<not> d_resolved (hd (discussions (mem w)))
       \<and> d_resolved_by (hd (discussions (mem w))) = None
       \<and> d_resolved_at (hd (discussions (mem w))) = None)
   \<and> find (has_id (Some 1)) (discussions (mem one_comment_world))
       = Some (hd (discussions (mem one_comment_world)))
   \<and> find (has_id (Some 1))
       (discussions (mem (snd
          (patch_resolve (Some 1) \<lparr>rs_resolved = False, rs_resolved_by = Some ''Francisco''\<rparr> noon
             (snd (patch_resolve (Some 1) \<lparr>rs_resolved = True, rs_resolved_by = Some ''Wife''\<rparr>
                     noon one_comment_world))))))
       = Some ((hd (discussions (mem one_comment_world)))
                 \<lparr>d_resolved := False, d_resolved_by := None, d_resolved_at := None\<rparr>)"
proof -
  have found: "find (has_id (Some 1)) (discussions (mem one_comment_world))
                 = Some (hd (discussions (mem one_comment_world)))"
    by (simp add: one_comment_world_mem has_id_def)
  from unresolved_has_no_attribution
         [of seed1 resolve_then_reopen "Some 1" one_comment_world
            "hd (discussions (mem one_comment_world))" "Some ''Francisco''" noon "Some ''Wife''" noon]
  obtain log w where run: "serve seed1 resolve_then_reopen = Some (log, w)"
    and inv: "\<forall>d \<in> set (discussions (mem w)).
                \<not> d_resolved d \<longrightarrow> d_resolved_by d = None \<and> d_resolved_at d = None"
    and reopen: "find (has_id (Some 1)) (discussions (mem one_comment_world))
                   = Some (hd (discussions (mem one_comment_world))) \<longrightarrow>
       find (has_id (Some 1))
       (discussions (mem (snd
          (patch_resolve (Some 1) \<lparr>rs_resolved = False, rs_resolved_by = Some ''Francisco''\<rparr> noon
             (snd (patch_resolve (Some 1) \<lparr>rs_resolved = True, rs_resolved_by = Some ''Wife''\<rparr>
                     noon one_comment_world))))))
       = Some ((hd (discussions (mem one_comment_world)))
                 \<lparr>d_resolved := False, d_resolved_by := None, d_resolved_at := None\<rparr>)"
    by blast
  from run resolve_then_reopen_result
  have inside: "hd (discussions (mem w)) \<in> set (discussions (mem w))"
    and unresolved: "\<not> d_resolved (hd (discussions (mem w)))"
    by simp_all
  with inv have "d_resolved_by (hd (discussions (mem w))) = None"
    and "d_resolved_at (hd (discussions (mem w))) = None"
    by blast+
  with run inside unresolved found reopen show ?thesis
    by blast
qed

section \<open>Discussion ids never come back\<close>

text \<open>
  Where the counter has stopped, at \<open>2^53\<close>, two creations in a row return the same
  id. A run from the first start does not get there: every creation adds a
  notification, nothing removes one, and an array holds at most \<open>2^32 - 1\<close>
  elements.
\<close>

lemma same_id_twice_at_the_limit:
  "nx_discussion (nextId (mem w)) = 2 ^ 53 \<Longrightarrow>
     fst (post_discussions body2 clock2 (snd (post_discussions body1 clock1 w)))
       = fst (post_discussions body1 clock1 w)"
  using increment_stalls by (simp add: post_discussions_def Let_def)




section \<open>Saving and loading\<close>

text \<open>
  The other outcomes of the parser, on small texts: a trailing comma, text after the
  value, a leading zero and an unfinished object are syntax errors; a fraction is
  outside the model. A file that does not parse makes \<open>loadDB\<close> start a new store.
\<close>

lemma JSON_parse_examples:
  "JSON_parse ''[1, 2,]'' = Syntax_error"
  "JSON_parse ''[1, 2] x'' = Syntax_error"
  "JSON_parse ''[01]'' = Syntax_error"
  "JSON_parse ''{'' = Syntax_error"
  "JSON_parse ''[1.5]'' = Unmodelled"
  "JSON_parse '' [ true , null ] '' = Parsed (JArr [JBool True, JNull])"
  by code_simp+

lemma loadDB_broken_file: "loadDB seed (Some ''{'') = Some (initializeDB seed (Some ''{''))"
proof -
  have "JSON_parse ''{'' = Syntax_error"
    by code_simp
  then show ?thesis
    by (simp add: loadDB_def)
qed

text \<open>
  Claim C9. For every store of the data model (sections, discussions with their
  replies, notifications and the three counters), \<open>loadDB\<close> on the file that
  \<open>saveDB\<close> has written returns that store and leaves the file alone; and a process
  started on that file has that store in memory. This rests on the text itself:
  \<open>JSON_parse\<close> returns every value that \<open>JSON_stringify\<close> was given, provided its
  objects have no repeated key and no key made of digits, which holds of the value
  of every store.
\<close>

theorem save_then_load_is_identity:
  "loadDB seed (saveDB data f) = Some (data, saveDB data f)
   \<and> startup seed (saveDB data f) = Some \<lparr>mem = data, disk = saveDB data f\<rparr>
   \<and> JSON_parse (JSON_stringify (db_json data)) = Parsed (db_json data)
   \<and> json_db (db_json data) = Some data
   \<and> (wf_json j \<longrightarrow> JSON_parse (JSON_stringify j) = Parsed j)"
  by (simp add: loadDB_saveDB startup_saveDB JSON_parse_stringify wf_db_json json_db_json)

lemma small_json_text:
  "JSON_stringify small_json =
     [CHR ''{'', CHR 0x0A] @ ''  '' @ [CHR 0x22] @ ''id'' @ [CHR 0x22] @ '': -12,'' @ [CHR 0x0A]
     @ ''  '' @ [CHR 0x22] @ ''text'' @ [CHR 0x22] @ '': '' @ [CHR 0x22] @ ''a'' @ [CHR 0x5C, CHR 0x22, CHR 0x5C] @ ''nb'' @ [CHR 0x22] @ '','' @ [CHR 0x0A]
     @ ''  '' @ [CHR 0x22] @ ''tags'' @ [CHR 0x22] @ '': ['' @ [CHR 0x0A]
     @ ''    null,'' @ [CHR 0x0A]
     @ ''    true,'' @ [CHR 0x0A]
     @ ''    [],'' @ [CHR 0x0A]
     @ ''    {}'' @ [CHR 0x0A]
     @ ''  ]'' @ [CHR 0x0A]
     @ ''}''"
  by code_simp

lemma small_json_parsed:
  "JSON_parse (JSON_stringify small_json) = Parsed small_json"
  by code_simp

theorem save_then_load_is_identity_witness:
  "wf_json small_json
   \<and> JSON_parse (JSON_stringify small_json) = Parsed small_json
   \<and> loadDB seed1 (saveDB (mem one_comment_world) None)
       = Some (mem one_comment_world, saveDB (mem one_comment_world) None)
   \<and> startup seed1 (disk one_comment_world) = Some one_comment_world"
proof -
  have wf: "wf_json small_json"
    by (simp add: small_json_def plain_key_def is_digit_def)
  have saved: "disk one_comment_world = saveDB (mem one_comment_world) None"
    by (simp add: one_comment_world_def post_discussions_def Let_def saveDB_def)
  from save_then_load_is_identity [of seed1 "mem one_comment_world" None small_json] wf
  show ?thesis
    by (simp add: saved)
qed

section \<open>Session validation\<close>

text \<open>
  Claim C8. \<open>validateSession\<close> answers false for a missing token (undefined or empty),
  for a token that the session store does not hold, and for a token whose recorded
  expiry is earlier than the current time; in the last case the call itself deletes
  the entry and leaves every other entry alone, in the first two the store is as it was.
\<close>

theorem validateSession_fails_closed:
  "((token = None \<or> token = Some []) \<longrightarrow> validateSession token now ss = (False, ss))
   \<and> (ss t = None \<longrightarrow> validateSession (Some t) now ss = (False, ss))
   \<and> (t \<noteq> [] \<and> ss t = Some s \<and> expiresAt s < now \<longrightarrow>
        fst (validateSession (Some t) now ss) = False
        \<and> snd (validateSession (Some t) now ss) t = None
        \<and> (\<forall>u. u \<noteq> t \<longrightarrow> snd (validateSession (Some t) now ss) u = ss u))"
  by (auto simp: validateSession_def)

theorem validateSession_fails_closed_witness:
  "validateSession None 100 (Map.empty(''tok'' \<mapsto> \<lparr>expiresAt = 50\<rparr>))
     = (False, Map.empty(''tok'' \<mapsto> \<lparr>expiresAt = 50\<rparr>))
   \<and> validateSession (Some ''other'') 100 (Map.empty(''tok'' \<mapsto> \<lparr>expiresAt = 50\<rparr>))
     = (False, Map.empty(''tok'' \<mapsto> \<lparr>expiresAt = 50\<rparr>))
   \<and> fst (validateSession (Some ''tok'') 100 (Map.empty(''tok'' \<mapsto> \<lparr>expiresAt = 50\<rparr>))) = False
   \<and> snd (validateSession (Some ''tok'') 100 (Map.empty(''tok'' \<mapsto> \<lparr>expiresAt = 50\<rparr>))) ''tok'' = None"
  using validateSession_fails_closed
          [of None 100 "Map.empty(''tok'' \<mapsto> \<lparr>expiresAt = 50\<rparr>)" "''other''" "\<lparr>expiresAt = 50\<rparr>"]
        validateSession_fails_closed
          [of None 100 "Map.empty(''tok'' \<mapsto> \<lparr>expiresAt = 50\<rparr>)" "''tok''" "\<lparr>expiresAt = 50\<rparr>"]
  by simp

end
